theory Spec2Isabelle
  imports Main "HOL-Library.Word"
begin

unbundle bit_operations_syntax

section \<open>Values of the decoded field tree\<close>

type_synonym byte = "8 word"
type_synonym uint64 = "64 word"

text \<open>
  A Go \<open>float64\<close> is represented by its IEEE-754 bit pattern: \<open>Float64frombits u\<close> is
  the double whose 64 bits are \<open>u\<close> (Go's \<open>math.Float64frombits\<close>). No arithmetic on
  doubles is needed; the decoder only reinterprets bit patterns.
\<close>

datatype float64 = Float64frombits uint64

text \<open>
  What a Go \<open>any\<close> returned to the toolkit can hold in this decoder. An \<open>int64\<close> is
  kept as the integer it denotes.
\<close>

datatype any =
    any_uint64 uint64
  | any_int64 int
  | any_float64 float64
  | any_string "byte list"
  | any_raw "byte list"
  | any_bool bool

text \<open>
  The field tree: a scalar carries its actual value and an optional symbol, a struct and
  an array carry their named children in emission order.
\<close>

datatype "value" =
    Scalar any "string option"
  | Struct "(string \<times> value) list"
  | Array "(string \<times> value) list"

text \<open>\<open>scalar.Uint\<close>: the fields of it this decoder touches.\<close>

record scalar_Uint =
  Actual :: uint64
  Sym :: "string option"

section \<open>The decoding toolkit\<close>

text \<open>
  The ways a decode ends without a result. \<open>OutOfInput\<close> is the toolkit's error for
  a read past the end of the readable range (the specification's StructuralOverrun and
  Truncated input, which it says surface the same way); \<open>InvalidFormat\<close> is a failed
  byte assertion; \<open>NegativeLength\<close> is a negative size handed to a sized read or to a
  bounded scope; \<open>UnknownOpcode\<close> is the error the specification gives the opcode
  lookup for an opcode with no table entry; \<open>ScalarMapError\<close> stands for any other
  error a scalar mapper may return; \<open>IndexOutOfRange\<close> is Go's run-time panic on an
  out-of-range index.
\<close>

datatype decode_error =
    InvalidFormat
  | UnknownOpcode
  | OutOfInput
  | NegativeLength
  | ScalarMapError string
  | IndexOutOfRange

text \<open>
  A \<open>scalar.UintMapper\<close>: \<open>MapUint\<close> returns the mapped scalar and an error, where
  \<open>None\<close> is Go's \<open>nil\<close>.
\<close>

type_synonym UintMapper = "scalar_Uint \<Rightarrow> scalar_Uint \<times> decode_error option"

datatype endian = decode_BigEndian | decode_LittleEndian

text \<open>
  The decoder state \<open>decode.D\<close>: \<open>buf\<close> holds the bytes from the cursor to the end
  of the readable range, \<open>pos\<close> is the cursor (in bytes from the start of the input; every
  field of this format is a whole number of bytes), \<open>Endian\<close> the active byte order and
  \<open>children\<close> the fields emitted so far into the compound value being built.
\<close>

record D =
  buf :: "byte list"
  pos :: nat
  Endian :: endian
  children :: "(string \<times> value) list"

text \<open>
  A decode routine takes the decoder state and either fails or returns a value with the
  new state. \<open>ret\<close> returns a value without touching the state, \<open>bnd m k\<close> is the Go
  statement sequence "run \<open>m\<close>, then \<open>k\<close> on its result", where an error of \<open>m\<close> ends
  the decode, and \<open>addField\<close> appends one named field to the value being built.
\<close>

type_synonym 'a dec = "D \<Rightarrow> decode_error + ('a \<times> D)"

definition ret :: "'a \<Rightarrow> 'a dec" where
  "ret x d = Inr (x, d)"

definition bnd :: "'a dec \<Rightarrow> ('a \<Rightarrow> 'b dec) \<Rightarrow> 'b dec" where
  "bnd m k d = (case m d of Inl e \<Rightarrow> Inl e | Inr (x, d') \<Rightarrow> k x d')"

definition addField :: "string \<Rightarrow> value \<Rightarrow> D \<Rightarrow> D" where
  "addField name v d = d\<lparr>children := children d @ [(name, v)]\<rparr>"

text \<open>
  Modelled from the spec: the 1-byte cursor read \<open>U8\<close> of the host toolkit (package
  \<open>decode\<close>, not among the given sources), "fixed-width integer field reads (1-byte and
  2-byte ... in a process-settable byte order)". A read past the end of the readable range
  fails.
\<close>

definition U8 :: "uint64 dec" where
  "U8 d = (case buf d of
      [] \<Rightarrow> Inl OutOfInput
    | b # bs \<Rightarrow> Inr (ucast b, d\<lparr>buf := bs, pos := pos d + 1\<rparr>))"

text \<open>
  Modelled from the spec: the 2-byte cursor read \<open>U16\<close> of the host toolkit, of the same
  "fixed-width integer field reads ... in a process-settable byte order": the two bytes are
  combined in the order \<open>Endian\<close> names.
\<close>

definition U16 :: "uint64 dec" where
  "U16 d = (case buf d of
      b0 # b1 # bs \<Rightarrow>
        Inr (if Endian d = decode_BigEndian
             then push_bit 8 (ucast b0) OR ucast b1
             else push_bit 8 (ucast b1) OR ucast b0,
             d\<lparr>buf := bs, pos := pos d + 2\<rparr>)
    | _ \<Rightarrow> Inl OutOfInput)"

text \<open>
  Modelled from the spec: the toolkit's \<open>ULEB128\<close> read, "a byte-oriented encoding of
  an unsigned integer using 7 payload bits per byte and a continuation bit,
  least-significant group first", accumulated in a \<open>uint64\<close>. \<open>uleb128\<close> returns the
  value and the bytes left, or \<open>None\<close> when the input ends inside the integer. The
  specification names no limit on the number of bytes; payload bits shifted past bit 63
  are lost, as with Go's shift.
\<close>

fun uleb128 :: "byte list \<Rightarrow> nat \<Rightarrow> uint64 \<Rightarrow> (uint64 \<times> byte list) option" where
  "uleb128 [] shift result = None"
| "uleb128 (b # bs) shift result =
     (let result' = result OR push_bit shift (ucast (b AND 0x7f)) in
      if b AND 0x80 = 0 then Some (result', bs)
      else uleb128 bs (shift + 7) result')"

definition ULEB128 :: "uint64 dec" where
  "ULEB128 d = (case uleb128 (buf d) 0 0 of
      None \<Rightarrow> Inl OutOfInput
    | Some (v, bs) \<Rightarrow> Inr (v, d\<lparr>buf := bs, pos := pos d + (length (buf d) - length bs)\<rparr>))"

text \<open>
  Modelled from the spec: "a pluggable value-transform hook invoked immediately after a
  scalar read". The mappers run in order on the freshly read scalar; an error of a mapper
  ends the decode with that error, otherwise the mapped scalar becomes the field and its
  actual value is returned.
\<close>

fun apply_mappers :: "UintMapper list \<Rightarrow> scalar_Uint \<Rightarrow> decode_error + scalar_Uint" where
  "apply_mappers [] s = Inr s"
| "apply_mappers (m # ms) s =
     (case m s of
        (s', Some e) \<Rightarrow> Inl e
      | (s', None) \<Rightarrow> apply_mappers ms s')"

definition FieldUintFn :: "string \<Rightarrow> uint64 dec \<Rightarrow> UintMapper list \<Rightarrow> uint64 dec" where
  "FieldUintFn name rd sms =
     bnd rd (\<lambda>v d.
       case apply_mappers sms \<lparr>Actual = v, Sym = None\<rparr> of
         Inl e \<Rightarrow> Inl e
       | Inr s \<Rightarrow> Inr (Actual s, addField name (Scalar (any_uint64 (Actual s)) (Sym s)) d))"

text \<open>
  Modelled from the spec: the toolkit's field reads \<open>FieldU8\<close>, \<open>FieldU16\<close> and
  \<open>FieldULEB128\<close>, "fixed-width integer field reads" and "variable-length
  (ULEB128-style) unsigned integer field reads": the cursor read, the mappers, and one
  named field.
\<close>

definition FieldU8 :: "string \<Rightarrow> UintMapper list \<Rightarrow> uint64 dec" where
  "FieldU8 name sms = FieldUintFn name U8 sms"

definition FieldU16 :: "string \<Rightarrow> UintMapper list \<Rightarrow> uint64 dec" where
  "FieldU16 name sms = FieldUintFn name U16 sms"

definition FieldULEB128 :: "string \<Rightarrow> UintMapper list \<Rightarrow> uint64 dec" where
  "FieldULEB128 name sms = FieldUintFn name ULEB128 sms"

text \<open>
  Modelled from the spec: "raw byte/string field reads with a pluggable text-encoding
  strategy (used here exclusively in no transformation, pass through raw bytes mode)".
  The size is a Go \<open>int\<close>; a negative size, which the specification does not cover, is
  taken as an error, like a size beyond the readable bytes.
\<close>

definition FieldStr :: "string \<Rightarrow> int \<Rightarrow> (byte list) dec" where
  "FieldStr name nBytes d =
     (if nBytes < 0 then Inl NegativeLength
      else if length (buf d) < nat nBytes then Inl OutOfInput
      else Inr (take (nat nBytes) (buf d),
                addField name (Scalar (any_string (take (nat nBytes) (buf d))) None)
                  (d\<lparr>buf := drop (nat nBytes) (buf d), pos := pos d + nat nBytes\<rparr>)))"

text \<open>
  Modelled from the spec: "an assertion primitive that validates a literal byte sequence
  against the input and fails the whole decode if it does not match", attached to a raw
  read of \<open>nBits\<close> bits (a multiple of 8 here).
\<close>

definition AssertBitBuf :: "byte list \<Rightarrow> byte list \<Rightarrow> decode_error option" where
  "AssertBitBuf bs raw = (if raw = bs then None else Some InvalidFormat)"

text \<open>
  Modelled from the spec: \<open>FieldRawLen\<close>, the raw read the assertion is attached to. It
  fails when fewer bytes are readable, then runs the assertion on the bytes read.
\<close>

definition FieldRawLen ::
  "string \<Rightarrow> nat \<Rightarrow> (byte list \<Rightarrow> decode_error option) \<Rightarrow> unit dec" where
  "FieldRawLen name nBits assert d =
     (if length (buf d) < nBits div 8 then Inl OutOfInput
      else case assert (take (nBits div 8) (buf d)) of
             Some e \<Rightarrow> Inl e
           | None \<Rightarrow>
               Inr ((), addField name (Scalar (any_raw (take (nBits div 8) (buf d))) None)
                      (d\<lparr>buf := drop (nBits div 8) (buf d), pos := pos d + nBits div 8\<rparr>)))"

text \<open>
  Modelled from the spec: \<open>FieldValueBool\<close> of the toolkit, which emits a named boolean
  field computed by the caller (the "four named boolean fields" of the flags) and reads
  nothing.
\<close>

definition FieldValueBool :: "string \<Rightarrow> bool \<Rightarrow> unit dec" where
  "FieldValueBool name b d = Inr ((), addField name (Scalar (any_bool b) None) d)"

text \<open>
  Modelled from the spec: "a mechanism to compute a derived value from one or more
  sub-reads and expose it as a single named field".
\<close>

definition FieldAnyFn :: "string \<Rightarrow> any dec \<Rightarrow> unit dec" where
  "FieldAnyFn name fn = bnd fn (\<lambda>a d. Inr ((), addField name (Scalar a None) d))"

text \<open>
  Modelled from the spec: "named nested-structure and named-array grouping for
  hierarchical output". The callback fills a fresh compound value, which is then added
  to the enclosing one. What the Go closure assigns to captured variables is the result
  of the callback here.
\<close>

definition FieldStruct :: "string \<Rightarrow> 'a dec \<Rightarrow> 'a dec" where
  "FieldStruct name fn d =
     (case fn (d\<lparr>children := []\<rparr>) of
        Inl e \<Rightarrow> Inl e
      | Inr (x, d') \<Rightarrow> Inr (x, d'\<lparr>children := children d @ [(name, Struct (children d'))]\<rparr>))"

text \<open>
  Modelled from the spec: \<open>FieldArray\<close>, the "named-array grouping" of the same
  mechanism.
\<close>

definition FieldArray :: "string \<Rightarrow> 'a dec \<Rightarrow> 'a dec" where
  "FieldArray name fn d =
     (case fn (d\<lparr>children := []\<rparr>) of
        Inl e \<Rightarrow> Inl e
      | Inr (x, d') \<Rightarrow> Inr (x, d'\<lparr>children := children d @ [(name, Array (children d'))]\<rparr>))"

text \<open>
  Modelled from the spec: "a byte-length-bounded sub-decoding scope that hard-fails if
  the nested decode would read past a caller-specified bit limit". The callback sees
  only the \<open>nBits\<close> bits after the cursor; when it returns, the bytes behind the scope
  are readable again and the cursor stays where the callback left it. The specification
  gives the scope no other effect (no seek to the limit, no check that the callback used
  the whole range). \<open>nBits\<close> is a Go \<open>int64\<close>; a negative limit, which the
  specification does not cover, is taken as an error.
\<close>

definition LimitedFn :: "int \<Rightarrow> 'a dec \<Rightarrow> 'a dec" where
  "LimitedFn nBits fn d =
     (if nBits < 0 then Inl NegativeLength
      else case fn (d\<lparr>buf := take (nat nBits div 8) (buf d)\<rparr>) of
             Inl e \<Rightarrow> Inl e
           | Inr (x, d') \<Rightarrow> Inr (x, d'\<lparr>buf := buf d' @ drop (nat nBits div 8) (buf d)\<rparr>))"

text \<open>
  Modelled from the spec: "a single-byte lookahead primitive that does not advance the
  read position".
\<close>

definition PeekBytes :: "nat \<Rightarrow> (byte list) dec" where
  "PeekBytes nBytes d =
     (if length (buf d) < nBytes then Inl OutOfInput else Inr (take nBytes (buf d), d))"

text \<open>A Go loop \<open>for i := uint64(0); i < n; i++ { body }\<close> whose body does not use \<open>i\<close>.\<close>

primrec for_loop :: "nat \<Rightarrow> unit dec \<Rightarrow> unit dec" where
  "for_loop 0 body = ret ()"
| "for_loop (Suc n) body = bnd body (\<lambda>_. for_loop n body)"

section \<open>The LuaJIT bytecode dump decoder\<close>

subsection \<open>Reinterpreting an integer as a double\<close>

text \<open>Go's \<open>binary.BigEndian.PutUint64\<close> and the big-endian read of eight bytes.\<close>

definition BigEndian_PutUint64 :: "uint64 \<Rightarrow> byte list" where
  "BigEndian_PutUint64 v =
     [ucast (drop_bit 56 v), ucast (drop_bit 48 v), ucast (drop_bit 40 v),
      ucast (drop_bit 32 v), ucast (drop_bit 24 v), ucast (drop_bit 16 v),
      ucast (drop_bit 8 v), ucast v]"

fun BigEndian_Uint64 :: "byte list \<Rightarrow> uint64" where
  "BigEndian_Uint64 [b0, b1, b2, b3, b4, b5, b6, b7] =
     ucast b7 OR push_bit 8 (ucast b6) OR push_bit 16 (ucast b5) OR push_bit 24 (ucast b4) OR
     push_bit 32 (ucast b3) OR push_bit 40 (ucast b2) OR push_bit 48 (ucast b1) OR
     push_bit 56 (ucast b0)"
| "BigEndian_Uint64 bs = 0"

text \<open>
  \<open>u64tof64\<close> writes the integer into an 8-byte buffer, big-endian, and reads the buffer
  back, big-endian, as a \<open>float64\<close>.
\<close>

definition u64tof64 :: "uint64 \<Rightarrow> float64" where
  "u64tof64 u = Float64frombits (BigEndian_Uint64 (BigEndian_PutUint64 u))"

subsection \<open>Header\<close>

record DumpInfo =
  Strip :: bool
  BigEndian :: bool

text \<open>
  \<open>LuaJITDecodeHeader\<close> writes \<open>Strip\<close> and \<open>BigEndian\<close> through its pointer
  argument; here it returns the updated \<open>DumpInfo\<close>.
\<close>

definition LuaJITDecodeHeader :: "DumpInfo \<Rightarrow> DumpInfo dec" where
  "LuaJITDecodeHeader di =
     bnd (FieldRawLen ''magic'' (3 * 8) (AssertBitBuf [0x1b, 0x4c, 0x4a])) (\<lambda>_.
     bnd (FieldU8 ''version'' []) (\<lambda>_.
     bnd (FieldStruct ''flags''
            (bnd (FieldULEB128 ''raw'' []) (\<lambda>flags.
             bnd (FieldValueBool ''be'' (flags AND 0x01 > 0)) (\<lambda>_.
             bnd (FieldValueBool ''strip'' (flags AND 0x02 > 0)) (\<lambda>_.
             bnd (FieldValueBool ''ffi'' (flags AND 0x04 > 0)) (\<lambda>_.
             bnd (FieldValueBool ''fr2'' (flags AND 0x08 > 0)) (\<lambda>_.
             ret flags))))))) (\<lambda>flags.
     let di' = di\<lparr>Strip := flags AND 0x2 > 0, BigEndian := flags AND 0x1 > 0\<rparr> in
     if \<not> Strip di' then
       bnd (FieldU8 ''namelen'' []) (\<lambda>namelen.
       bnd (FieldStr ''name'' (sint namelen)) (\<lambda>_.
       ret di'))
     else ret di')))"

subsection \<open>Instructions\<close>

definition jumpBias_MapUint :: UintMapper where
  "jumpBias_MapUint u = (u\<lparr>Actual := Actual u - 0x8000\<rparr>, None)"

text \<open>
  The opcode table \<open>opcodes\<close> and its symbol mapper \<open>bcOpSyms\<close> are declared in a
  file of the package that is not among the given sources. The table is a parameter of
  the decoder: one descriptor per opcode number, in order, with what its methods
  \<open>HasD()\<close> and \<open>IsJump()\<close> return.
\<close>

record BcDef =
  Name :: string
  HasD :: bool
  IsJump :: bool

text \<open>
  Modelled from the spec: \<open>bcOpSyms\<close>, the mapper of the \<open>op\<close> field. The instruction
  decoder "reads \<open>op\<close> (1 byte), looks it up in the opcode table (bounds-checked, error
  \<open>UnknownOpcode\<close> if out of range), and decorates the field with its symbolic name";
  "an opcode number with no corresponding entry is a decode error (\<open>UnknownOpcode\<close>), not
  a default/fallback entry". The decoration leaves the numeric value as it is.
\<close>

definition bcOpSyms :: "BcDef list \<Rightarrow> UintMapper" where
  "bcOpSyms opcodes u =
     (if unat (Actual u) < length opcodes
      then (u\<lparr>Sym := Some (Name (opcodes ! unat (Actual u)))\<rparr>, None)
      else (u, Some UnknownOpcode))"

text \<open>Go's \<open>opcodes[i]\<close>: an index outside the table is a run-time panic.\<close>

definition index_opcodes :: "BcDef list \<Rightarrow> int \<Rightarrow> BcDef dec" where
  "index_opcodes opcodes i d =
     (if 0 \<le> i \<and> nat i < length opcodes then Inr (opcodes ! nat i, d)
      else Inl IndexOutOfRange)"

definition LuaJITDecodeBCIns :: "BcDef list \<Rightarrow> unit dec" where
  "LuaJITDecodeBCIns opcodes =
     bnd (FieldU8 ''op'' [bcOpSyms opcodes]) (\<lambda>op.
     bnd (FieldU8 ''a'' []) (\<lambda>_.
     bnd (index_opcodes opcodes (sint op)) (\<lambda>e.
     if HasD e then
       bnd (index_opcodes opcodes (sint op)) (\<lambda>e'.
       if IsJump e' then
         bnd (FieldU16 ''j'' [jumpBias_MapUint]) (\<lambda>_. ret ())
       else
         bnd (FieldU16 ''d'' []) (\<lambda>_. ret ()))
     else
       bnd (FieldU8 ''c'' []) (\<lambda>_.
       bnd (FieldU8 ''b'' []) (\<lambda>_. ret ())))))"

subsection \<open>Constants\<close>

definition ktabType_MapUint :: UintMapper where
  "ktabType_MapUint u =
     ((if Actual u = 0 then u\<lparr>Sym := Some ''nil''\<rparr>
       else if Actual u = 1 then u\<lparr>Sym := Some ''false''\<rparr>
       else if Actual u = 2 then u\<lparr>Sym := Some ''true''\<rparr>
       else if Actual u = 3 then u\<lparr>Sym := Some ''int''\<rparr>
       else if Actual u = 4 then u\<lparr>Sym := Some ''num''\<rparr>
       else u\<lparr>Sym := Some ''str''\<rparr>), None)"

definition LuaJITDecodeKTabK :: "unit dec" where
  "LuaJITDecodeKTabK =
     bnd (FieldULEB128 ''ktabtype'' [ktabType_MapUint]) (\<lambda>ktabtype.
     if ktabtype \<ge> 5 then
       (let sz = ktabtype - 5 in
        bnd (FieldStr ''str'' (sint sz)) (\<lambda>_. ret ()))
     else if ktabtype = 3 then
       bnd (FieldULEB128 ''int'' []) (\<lambda>_. ret ())
     else if ktabtype = 4 then
       FieldAnyFn ''num''
         (bnd ULEB128 (\<lambda>lo.
          bnd ULEB128 (\<lambda>hi.
          ret (any_float64 (u64tof64 (push_bit 32 hi + lo))))))
     else ret ())"

definition LuaJITDecodeCplx :: "any dec" where
  "LuaJITDecodeCplx =
     bnd ULEB128 (\<lambda>lo.
     if lo AND 1 = 0 then
       ret (any_uint64 (drop_bit 1 lo))
     else
       bnd ULEB128 (\<lambda>hi.
       ret (any_float64 (u64tof64 (push_bit 32 hi + drop_bit 1 lo)))))"

definition kgcType_MapUint :: UintMapper where
  "kgcType_MapUint u =
     ((if Actual u = 0 then u\<lparr>Sym := Some ''child''\<rparr>
       else if Actual u = 1 then u\<lparr>Sym := Some ''tab''\<rparr>
       else if Actual u = 2 then u\<lparr>Sym := Some ''i64''\<rparr>
       else if Actual u = 3 then u\<lparr>Sym := Some ''u64''\<rparr>
       else if Actual u = 4 then u\<lparr>Sym := Some ''complex''\<rparr>
       else u\<lparr>Sym := Some ''str''\<rparr>), None)"

definition LuaJITDecodeKGC :: "unit dec" where
  "LuaJITDecodeKGC =
     bnd (FieldULEB128 ''type'' [kgcType_MapUint]) (\<lambda>kgctype.
     if kgctype \<ge> 5 then
       (let sz = kgctype - 5 in
        bnd (FieldStr ''str'' (sint sz)) (\<lambda>_. ret ()))
     else if kgctype = 0 then ret ()
     else if kgctype = 1 then
       bnd (FieldULEB128 ''narray'' []) (\<lambda>narray.
       bnd (FieldULEB128 ''nhash'' []) (\<lambda>nhash.
       bnd (FieldArray ''karray''
              (for_loop (unat narray) (FieldStruct ''ktab'' LuaJITDecodeKTabK))) (\<lambda>_.
       FieldArray ''khash''
         (for_loop (unat nhash)
            (FieldStruct ''khash''
               (bnd (FieldStruct ''k'' LuaJITDecodeKTabK) (\<lambda>_.
                FieldStruct ''v'' LuaJITDecodeKTabK)))))))
     else if kgctype = 2 then
       FieldAnyFn ''i64''
         (bnd ULEB128 (\<lambda>lo.
          bnd ULEB128 (\<lambda>hi.
          ret (any_int64 (sint (push_bit 32 hi + lo))))))
     else if kgctype = 3 then
       FieldAnyFn ''u64''
         (bnd ULEB128 (\<lambda>lo.
          bnd ULEB128 (\<lambda>hi.
          ret (any_uint64 (push_bit 32 hi + lo)))))
     else if kgctype = 4 then
       bnd (FieldAnyFn ''real''
              (bnd ULEB128 (\<lambda>rlo.
               bnd ULEB128 (\<lambda>rhi.
               let r = push_bit 32 rhi + rlo in
               ret (any_float64 (u64tof64 r)))))) (\<lambda>_.
       FieldAnyFn ''imag''
         (bnd ULEB128 (\<lambda>ilo.
          bnd ULEB128 (\<lambda>ihi.
          let i = push_bit 32 ihi + ilo in
          ret (any_float64 (u64tof64 i))))))
     else ret ())"

definition LuaJITDecodeKNum :: "any dec" where
  "LuaJITDecodeKNum =
     bnd ULEB128 (\<lambda>lo.
     if lo AND 1 = 0 then
       ret (any_uint64 (drop_bit 1 lo))
     else
       bnd ULEB128 (\<lambda>hi.
       ret (any_float64 (u64tof64 (push_bit 32 hi + drop_bit 1 lo)))))"

subsection \<open>Prototypes\<close>

text \<open>
  The closure \<open>LuaJITDecodeProto\<close> hands to \<open>LimitedFn\<close>: the \<open>pdata\<close> struct with
  the \<open>phead\<close> counts and the five arrays.
\<close>

definition LuaJITDecodeProto_pdata :: "BcDef list \<Rightarrow> DumpInfo \<Rightarrow> unit dec" where
  "LuaJITDecodeProto_pdata opcodes di =
     FieldStruct ''pdata''
     (bnd (FieldStruct ''phead''
             (bnd (FieldU8 ''flags'' []) (\<lambda>_.
              bnd (FieldU8 ''numparams'' []) (\<lambda>_.
              bnd (FieldU8 ''framesize'' []) (\<lambda>_.
              bnd (FieldU8 ''numuv'' []) (\<lambda>numuv.
              bnd (FieldULEB128 ''numkgc'' []) (\<lambda>numkgc.
              bnd (FieldULEB128 ''numkn'' []) (\<lambda>numkn.
              bnd (FieldULEB128 ''numbc'' []) (\<lambda>numbc.
              if \<not> Strip di then
                bnd (FieldULEB128 ''debuglen'' []) (\<lambda>debuglen.
                if debuglen > 0 then
                  bnd (FieldULEB128 ''firstline'' []) (\<lambda>_.
                  bnd (FieldULEB128 ''numline'' []) (\<lambda>_.
                  ret (numuv, numkgc, numkn, numbc, debuglen)))
                else ret (numuv, numkgc, numkn, numbc, debuglen))
              else ret (numuv, numkgc, numkn, numbc, 0))))))))))
        (\<lambda>(numuv, numkgc, numkn, numbc, debuglen).
           bnd (FieldArray ''bcins''
                  (for_loop (unat numbc)
                     (FieldStruct ''ins'' (LuaJITDecodeBCIns opcodes)))) (\<lambda>_.
           bnd (FieldArray ''uvdata''
                  (for_loop (unat numuv)
                     (bnd (FieldU16 ''uv'' []) (\<lambda>_. ret ())))) (\<lambda>_.
           bnd (FieldArray ''kgc''
                  (for_loop (unat numkgc)
                     (FieldStruct ''kgc'' LuaJITDecodeKGC))) (\<lambda>_.
           bnd (FieldArray ''knum''
                  (for_loop (unat numkn)
                     (FieldAnyFn ''knum'' LuaJITDecodeKNum))) (\<lambda>_.
           if \<not> Strip di then
             FieldArray ''debug''
               (for_loop (unat debuglen)
                  (bnd (FieldU8 ''db'' []) (\<lambda>_. ret ())))
           else ret ()))))))"

text \<open>
  The bit limit is the Go expression \<open>8*int64(length)\<close>: the product wraps around in
  64 bits and is read as a signed number.
\<close>

definition LuaJITDecodeProto :: "BcDef list \<Rightarrow> DumpInfo \<Rightarrow> unit dec" where
  "LuaJITDecodeProto opcodes di =
     bnd (FieldULEB128 ''length'' []) (\<lambda>length'.
     LimitedFn (sint (8 * length')) (LuaJITDecodeProto_pdata opcodes di))"

subsection \<open>The dump\<close>

text \<open>
  The loop of \<open>LuaJITDecode\<close>: peek one byte, stop when it is 0, otherwise decode one
  prototype and go on.
\<close>

function proto_loop :: "BcDef list \<Rightarrow> DumpInfo \<Rightarrow> unit dec" where
  "proto_loop opcodes di d =
     (case PeekBytes 1 d of
        Inl e \<Rightarrow> Inl e
      | Inr (nextByte, d0) \<Rightarrow>
          if nextByte = [0] then Inr ((), d0)
          else (case FieldStruct ''proto'' (LuaJITDecodeProto opcodes di) d0 of
                  Inl e \<Rightarrow> Inl e
                | Inr (u, d') \<Rightarrow> proto_loop opcodes di d'))"
  by pat_completeness auto

definition LuaJITDecode :: "BcDef list \<Rightarrow> unit dec" where
  "LuaJITDecode opcodes =
     bnd (FieldStruct ''header'' (LuaJITDecodeHeader \<lparr>Strip = False, BigEndian = False\<rparr>))
       (\<lambda>di d.
          bnd (FieldArray ''proto'' (proto_loop opcodes di)) (\<lambda>_.
          bnd (FieldU8 ''end'' []) (\<lambda>_.
          ret ()))
            (d\<lparr>Endian := if BigEndian di then decode_BigEndian else decode_LittleEndian\<rparr>))"

subsection \<open>Moving forward through the input\<close>

text \<open>
  \<open>advances d d'\<close>: the state \<open>d'\<close> is \<open>d\<close> with the cursor moved forward over some
  of the readable bytes, in the same byte order. \<open>keeps f\<close>: every successful run of the
  decoder \<open>f\<close> does that.
\<close>

definition advances :: "D \<Rightarrow> D \<Rightarrow> bool" where
  "advances d d' \<longleftrightarrow>
     (\<exists>n. n \<le> length (buf d) \<and> buf d' = drop n (buf d) \<and> pos d' = pos d + n) \<and>
     Endian d' = Endian d"

definition keeps :: "'a dec \<Rightarrow> bool" where
  "keeps f \<longleftrightarrow> (\<forall>d x d'. f d = Inr (x, d') \<longrightarrow> advances d d')"

named_theorems keeps_intros

text \<open>
  What the caller sees of a decode that returns nothing but effects: the error, or the
  fields emitted and the cursor.
\<close>

definition outcome ::
  "decode_error + (unit \<times> D) \<Rightarrow> decode_error + ((string \<times> value) list \<times> nat)" where
  "outcome r = (case r of Inl e \<Rightarrow> Inl e | Inr (u, d') \<Rightarrow> Inr (children d', pos d'))"

section \<open>Properties of the decoder\<close>

subsection \<open>Sequencing\<close>

lemma bnd_Inr: "m d = Inr (x, d') \<Longrightarrow> bnd m k d = k x d'"
  by (simp add: bnd_def)

lemma bnd_Inl: "m d = Inl e \<Longrightarrow> bnd m k d = Inl e"
  by (simp add: bnd_def)

subsection \<open>Every decoder only moves the cursor forward\<close>

lemma advances_refl [simp]: "advances d d"
  unfolding advances_def by (auto intro: exI[of _ 0])

lemma advances_trans: "advances d d1 \<Longrightarrow> advances d1 d2 \<Longrightarrow> advances d d2"
proof -
  assume a: "advances d d1" and b: "advances d1 d2"
  from a obtain n where n: "n \<le> length (buf d)" "buf d1 = drop n (buf d)" "pos d1 = pos d + n"
    and e1: "Endian d1 = Endian d"
    by (auto simp: advances_def)
  from b obtain m where m: "m \<le> length (buf d1)" "buf d2 = drop m (buf d1)" "pos d2 = pos d1 + m"
    and e2: "Endian d2 = Endian d1"
    by (auto simp: advances_def)
  have "n + m \<le> length (buf d)" using n m by simp
  moreover have "buf d2 = drop (n + m) (buf d)" using n m by (simp add: add.commute)
  moreover have "pos d2 = pos d + (n + m)" using n m by simp
  ultimately show ?thesis using e1 e2 unfolding advances_def by metis
qed

lemma advances_children [simp]: "advances d (d'\<lparr>children := c\<rparr>) = advances d d'"
  "advances (d\<lparr>children := c\<rparr>) d' = advances d d'"
  by (simp_all add: advances_def)

lemma advances_addField [simp]: "advances d (addField n v d') = advances d d'"
  by (simp add: addField_def)

lemma keepsI: "(\<And>d x d'. f d = Inr (x, d') \<Longrightarrow> advances d d') \<Longrightarrow> keeps f"
  by (simp add: keeps_def)

lemma keepsD: "keeps f \<Longrightarrow> f d = Inr (x, d') \<Longrightarrow> advances d d'"
  by (simp add: keeps_def)

lemma keeps_ret [keeps_intros]: "keeps (ret x)"
  by (auto simp: keeps_def ret_def)

lemma keeps_bnd [keeps_intros]:
  assumes "keeps m" and "\<And>x. keeps (k x)"
  shows "keeps (bnd m k)"
proof (rule keepsI)
  fix d x d'
  assume "bnd m k d = Inr (x, d')"
  then obtain a b where "m d = Inr (a, b)" and "k a b = Inr (x, d')"
    by (auto simp: bnd_def split: sum.splits)
  with assms show "advances d d'"
    by (blast intro: advances_trans dest: keepsD)
qed

lemma keeps_if [keeps_intros]: "(c \<Longrightarrow> keeps a) \<Longrightarrow> (\<not> c \<Longrightarrow> keeps b) \<Longrightarrow> keeps (if c then a else b)"
  by simp

lemma keeps_Let [keeps_intros]: "keeps (f v) \<Longrightarrow> keeps (Let v f)"
  by simp

lemma keeps_case_prod [keeps_intros]: "(\<And>a b. keeps (f a b)) \<Longrightarrow> keeps (case_prod f p)"
  by (cases p) simp

lemma keeps_U8 [keeps_intros]: "keeps U8"
  unfolding keeps_def U8_def advances_def
  by (auto split: list.splits intro: exI[of _ 1])

lemma keeps_U16 [keeps_intros]: "keeps U16"
  unfolding keeps_def U16_def advances_def
  by (auto split: list.splits intro: exI[of _ 2])

lemma uleb128_suffix:
  "uleb128 bs s r = Some (v, bs') \<Longrightarrow> \<exists>n. 0 < n \<and> n \<le> length bs \<and> bs' = drop n bs"
proof (induction bs arbitrary: s r)
  case Nil
  then show ?case by simp
next
  case (Cons b bs)
  show ?case
  proof (cases "b AND 0x80 = 0")
    case True
    with Cons.prems have "bs' = bs" by (simp add: Let_def)
    then show ?thesis by (intro exI[of _ 1]) simp
  next
    case False
    with Cons.prems have "uleb128 bs (s + 7) (r OR push_bit s (ucast (b AND 0x7f))) = Some (v, bs')"
      by (simp add: Let_def)
    from Cons.IH[OF this] obtain n where "0 < n" "n \<le> length bs" "bs' = drop n bs" by auto
    then show ?thesis by (intro exI[of _ "Suc n"]) simp
  qed
qed

lemma ULEB128_strict:
  "ULEB128 d = Inr (v, d') \<Longrightarrow> advances d d' \<and> length (buf d') < length (buf d) \<and> children d' = children d"
  unfolding ULEB128_def advances_def
  by (auto split: option.splits dest!: uleb128_suffix)

lemma keeps_ULEB128 [keeps_intros]: "keeps ULEB128"
  using ULEB128_strict by (auto simp: keeps_def)

lemma keeps_FieldUintFn [keeps_intros]: "keeps rd \<Longrightarrow> keeps (FieldUintFn name rd sms)"
  unfolding FieldUintFn_def
  by (rule keeps_bnd) (auto simp: keeps_def split: sum.splits)

lemma keeps_FieldU8 [keeps_intros]: "keeps (FieldU8 name sms)"
  by (simp add: FieldU8_def keeps_intros)

lemma keeps_FieldU16 [keeps_intros]: "keeps (FieldU16 name sms)"
  by (simp add: FieldU16_def keeps_intros)

lemma keeps_FieldULEB128 [keeps_intros]: "keeps (FieldULEB128 name sms)"
  by (simp add: FieldULEB128_def keeps_intros)

lemma keeps_FieldStr [keeps_intros]: "keeps (FieldStr name n)"
  unfolding keeps_def FieldStr_def
  by (auto simp: advances_def addField_def split: if_splits intro: exI[of _ "nat n"])

lemma keeps_FieldRawLen [keeps_intros]: "keeps (FieldRawLen name n a)"
  unfolding keeps_def FieldRawLen_def
  by (auto simp: advances_def addField_def split: if_splits option.splits
      intro: exI[of _ "n div 8"])

lemma keeps_FieldValueBool [keeps_intros]: "keeps (FieldValueBool name b)"
  by (auto simp: keeps_def FieldValueBool_def)

lemma keeps_FieldAnyFn [keeps_intros]: "keeps fn \<Longrightarrow> keeps (FieldAnyFn name fn)"
  unfolding FieldAnyFn_def
  by (rule keeps_bnd) (auto simp: keeps_def)

lemma keeps_FieldStruct [keeps_intros]: "keeps fn \<Longrightarrow> keeps (FieldStruct name fn)"
  unfolding keeps_def FieldStruct_def
  by (fastforce split: sum.splits)

lemma keeps_FieldArray [keeps_intros]: "keeps fn \<Longrightarrow> keeps (FieldArray name fn)"
  unfolding keeps_def FieldArray_def
  by (fastforce split: sum.splits)

lemma keeps_PeekBytes [keeps_intros]: "keeps (PeekBytes n)"
  by (auto simp: keeps_def PeekBytes_def split: if_splits)

lemma keeps_index_opcodes [keeps_intros]: "keeps (index_opcodes ops i)"
  by (auto simp: keeps_def index_opcodes_def split: if_splits)

lemma keeps_for_loop [keeps_intros]: "keeps body \<Longrightarrow> keeps (for_loop n body)"
  by (induction n) (auto intro: keeps_intros)


lemma drop_take_append_drop:
  assumes "m \<le> length (take k xs)"
  shows "drop m (take k xs) @ drop k xs = drop m xs"
proof -
  have "drop m xs = drop m (take k xs @ drop k xs)" by simp
  also have "\<dots> = drop m (take k xs) @ drop k xs"
    using assms by (simp only: drop_append) simp
  finally show ?thesis by simp
qed

lemma LimitedFn_window:
  assumes "keeps fn" and "LimitedFn nBits fn d = Inr (x, d')"
  shows "advances d d' \<and> length (buf d) - length (buf d') \<le> nat nBits div 8"
proof -
  let ?k = "nat nBits div 8"
  from assms(2) obtain d1 where
    run: "fn (d\<lparr>buf := take ?k (buf d)\<rparr>) = Inr (x, d1)" and
    d': "d' = d1\<lparr>buf := buf d1 @ drop ?k (buf d)\<rparr>"
    by (auto simp: LimitedFn_def split: if_splits sum.splits)
  from keepsD[OF assms(1) run] obtain m where
    m: "m \<le> length (take ?k (buf d))" "buf d1 = drop m (take ?k (buf d))" "pos d1 = pos d + m"
    and e: "Endian d1 = Endian d"
    by (auto simp: advances_def)
  have b: "buf d' = drop m (buf d)"
    using d' m drop_take_append_drop[of m ?k "buf d"] by simp
  have "m \<le> length (buf d)" "m \<le> ?k" using m(1) by simp_all
  then show ?thesis
    using b d' m(3) e unfolding advances_def by auto
qed

lemma keeps_LimitedFn [keeps_intros]: "keeps fn \<Longrightarrow> keeps (LimitedFn nBits fn)"
  by (rule keepsI) (simp add: LimitedFn_window)

lemma keeps_LuaJITDecodeHeader [keeps_intros]: "keeps (LuaJITDecodeHeader di)"
  unfolding LuaJITDecodeHeader_def by (intro keeps_intros)

lemma keeps_LuaJITDecodeBCIns [keeps_intros]: "keeps (LuaJITDecodeBCIns opcodes)"
  unfolding LuaJITDecodeBCIns_def by (intro keeps_intros)

lemma keeps_LuaJITDecodeKTabK [keeps_intros]: "keeps LuaJITDecodeKTabK"
  unfolding LuaJITDecodeKTabK_def by (intro keeps_intros)

lemma keeps_LuaJITDecodeKNum [keeps_intros]: "keeps LuaJITDecodeKNum"
  unfolding LuaJITDecodeKNum_def by (intro keeps_intros)

lemma keeps_LuaJITDecodeKGC [keeps_intros]: "keeps LuaJITDecodeKGC"
  unfolding LuaJITDecodeKGC_def by (intro keeps_intros)

lemma keeps_LuaJITDecodeProto_pdata [keeps_intros]: "keeps (LuaJITDecodeProto_pdata opcodes di)"
  unfolding LuaJITDecodeProto_pdata_def by (intro keeps_intros)

lemma keeps_LuaJITDecodeProto [keeps_intros]: "keeps (LuaJITDecodeProto opcodes di)"
  unfolding LuaJITDecodeProto_def by (intro keeps_intros)

lemma FieldUintFn_children_strict:
  assumes "FieldULEB128 name sms d = Inr (v, d')"
  shows "length (buf d') < length (buf d)"
  using assms unfolding FieldULEB128_def FieldUintFn_def bnd_def
  by (auto simp: addField_def split: sum.splits dest!: ULEB128_strict)

lemma LuaJITDecodeProto_strict:
  assumes "LuaJITDecodeProto opcodes di d = Inr (x, d')"
  shows "length (buf d') < length (buf d)"
proof -
  from assms obtain len d1 where
    l: "FieldULEB128 ''length'' [] d = Inr (len, d1)" and
    r: "LimitedFn (sint (8 * len)) (LuaJITDecodeProto_pdata opcodes di) d1 = Inr (x, d')"
    by (auto simp: LuaJITDecodeProto_def bnd_def split: sum.splits)
  have "length (buf d1) < length (buf d)" using l by (rule FieldUintFn_children_strict)
  moreover have "advances d1 d'"
    using keepsD[OF keeps_LimitedFn[OF keeps_LuaJITDecodeProto_pdata] r] .
  then have "length (buf d') \<le> length (buf d1)" by (auto simp: advances_def)
  ultimately show ?thesis by simp
qed

text \<open>
  Each round of the loop of \<open>LuaJITDecode\<close> consumes at least the length field of a
  prototype, so the loop ends on every input.
\<close>

termination proto_loop
proof (relation "measure (\<lambda>(opcodes, di, d). length (buf d))")
  show "wf (measure (\<lambda>(opcodes, di, d). length (buf d)))" by simp
next
  fix opcodes di d x2 nextByte d0 x2a u d'
  assume "PeekBytes 1 d = Inr x2" and "(nextByte, d0) = x2" and "nextByte \<noteq> [0]"
    and "FieldStruct ''proto'' (LuaJITDecodeProto opcodes di) d0 = Inr x2a" and "(u, d') = x2a"
  then have p: "d0 = d" and f: "FieldStruct ''proto'' (LuaJITDecodeProto opcodes di) d = Inr (u, d')"
    by (auto simp: PeekBytes_def split: if_splits)
  from f obtain d1 where "LuaJITDecodeProto opcodes di (d\<lparr>children := []\<rparr>) = Inr (u, d1)"
    and "buf d' = buf d1"
    by (auto simp: FieldStruct_def split: sum.splits)
  from LuaJITDecodeProto_strict[OF this(1)] this(2)
  show "((opcodes, di, d'), (opcodes, di, d)) \<in> measure (\<lambda>(opcodes, di, d). length (buf d))"
    by simp
qed

declare proto_loop.simps [simp del]

subsection \<open>The float reinterpretation keeps the bit pattern\<close>

lemma take_bit_split:
  "take_bit (m + n) (a::'a::len word) = take_bit m a OR push_bit m (take_bit n (drop_bit m a))"
  by (rule bit_word_eqI) (auto simp: bit_simps)

lemma ucast_byte: "(ucast (ucast (w::uint64) :: byte) :: uint64) = take_bit 8 w"
  by (rule bit_word_eqI) (auto simp: bit_simps)

lemma u64_roundtrip: "BigEndian_Uint64 (BigEndian_PutUint64 u) = u"
proof -
  have "u = take_bit 64 u" by (simp add: take_bit_word_eq_self)
  also have "\<dots> = take_bit 8 u OR push_bit 8 (take_bit 8 (drop_bit 8 u)) OR
      push_bit 16 (take_bit 8 (drop_bit 16 u)) OR push_bit 24 (take_bit 8 (drop_bit 24 u)) OR
      push_bit 32 (take_bit 8 (drop_bit 32 u)) OR push_bit 40 (take_bit 8 (drop_bit 40 u)) OR
      push_bit 48 (take_bit 8 (drop_bit 48 u)) OR push_bit 56 (take_bit 8 (drop_bit 56 u))"
    using take_bit_split[of 56 8 u] take_bit_split[of 48 8 u] take_bit_split[of 40 8 u]
      take_bit_split[of 32 8 u] take_bit_split[of 24 8 u] take_bit_split[of 16 8 u]
      take_bit_split[of 8 8 u]
    by (simp add: ac_simps)
  finally show ?thesis
    by (simp add: BigEndian_PutUint64_def ucast_byte)
qed

lemma u64tof64_bits: "u64tof64 u = Float64frombits u"
  by (simp add: u64tof64_def u64_roundtrip)

text \<open>
  The decoder combines two halves with \<open>+\<close>. The sum is the bitwise OR as long as the
  low half fits in 32 bits.
\<close>

lemma add_eq_or_below:
  fixes hi w :: uint64
  assumes "w < 2 ^ 32"
  shows "push_bit 32 hi + w = push_bit 32 hi OR w"
proof (rule disjunctive_add_eq_or, rule bit_word_eqI)
  fix n assume "n < LENGTH(64)"
  from assms have "take_bit 32 w = w"
    using less_mask_eq [of w 32] by (simp add: take_bit_eq_mask)
  then have "bit w n \<Longrightarrow> n < 32"
    by (metis bit_take_bit_iff)
  then show "bit (push_bit 32 hi AND w) n = bit (0::uint64) n"
    by (auto simp: bit_simps)
qed

subsection \<open>Numeric constants\<close>

text \<open>
  Claim C1, as the code has it. \<open>LuaJITDecodeKNum\<close> reads one variable-length integer
  \<open>lo\<close> (and fails when that read fails). If the least-significant bit of \<open>lo\<close> is 0
  the result is the unsigned integer \<open>lo >> 1\<close> and the cursor stays right behind
  \<open>lo\<close>: nothing more is read. Otherwise a second variable-length integer \<open>hi\<close> is
  read and the result is the double whose bit pattern is the 64-bit sum
  \<open>(hi << 32) + (lo >> 1)\<close>, with wrap-around. That sum is \<open>hi << 32 | (lo >> 1)\<close>
  whenever \<open>lo >> 1\<close> is below \<open>2^32\<close>, that is, whenever \<open>lo\<close> fits in 33 bits.
\<close>

theorem LuaJITDecodeKNum_parity:
  "(\<forall>e. ULEB128 d = Inl e \<longrightarrow> LuaJITDecodeKNum d = Inl e) \<and>
   (\<forall>lo d1. ULEB128 d = Inr (lo, d1) \<longrightarrow>
      (lo AND 1 = 0 \<longrightarrow> LuaJITDecodeKNum d = Inr (any_uint64 (drop_bit 1 lo), d1)) \<and>
      (lo AND 1 \<noteq> 0 \<longrightarrow>
         (\<forall>e. ULEB128 d1 = Inl e \<longrightarrow> LuaJITDecodeKNum d = Inl e) \<and>
         (\<forall>hi d2. ULEB128 d1 = Inr (hi, d2) \<longrightarrow>
            LuaJITDecodeKNum d =
              Inr (any_float64 (Float64frombits (push_bit 32 hi + drop_bit 1 lo)), d2) \<and>
            (drop_bit 1 lo < 2 ^ 32 \<longrightarrow>
               LuaJITDecodeKNum d =
                 Inr (any_float64 (Float64frombits (push_bit 32 hi OR drop_bit 1 lo)), d2)))))"
  by (auto simp: LuaJITDecodeKNum_def bnd_def ret_def u64tof64_bits add_eq_or_below)

text \<open>
  The specification's examples: \<open>lo = 5\<close>, \<open>hi = 0\<close> gives the double with bit pattern
  2; \<open>lo = 4\<close> gives the integer 2 and leaves the next byte unread; an empty input fails.
\<close>

theorem LuaJITDecodeKNum_parity_witness:
  "LuaJITDecodeKNum \<lparr>buf = [0x05, 0x00, 0x07], pos = 0, Endian = decode_LittleEndian, children = []\<rparr> =
     Inr (any_float64 (Float64frombits 2),
          \<lparr>buf = [0x07], pos = 2, Endian = decode_LittleEndian, children = []\<rparr>) \<and>
   LuaJITDecodeKNum \<lparr>buf = [0x04, 0x07], pos = 0, Endian = decode_LittleEndian, children = []\<rparr> =
     Inr (any_uint64 2, \<lparr>buf = [0x07], pos = 1, Endian = decode_LittleEndian, children = []\<rparr>) \<and>
   LuaJITDecodeKNum \<lparr>buf = [], pos = 0, Endian = decode_LittleEndian, children = []\<rparr> = Inl OutOfInput"
  using LuaJITDecodeKNum_parity
      [of "\<lparr>buf = [0x05, 0x00, 0x07], pos = 0, Endian = decode_LittleEndian, children = []\<rparr>"]
    LuaJITDecodeKNum_parity
      [of "\<lparr>buf = [0x04, 0x07], pos = 0, Endian = decode_LittleEndian, children = []\<rparr>"]
    LuaJITDecodeKNum_parity
      [of "\<lparr>buf = [], pos = 0, Endian = decode_LittleEndian, children = []\<rparr>"]
  by (simp add: ULEB128_def)

text \<open>
  Where the sum and the OR differ: the bytes \<open>81 80 80 80 20\<close> encode
  \<open>lo = 0x200000001\<close> (odd, \<open>lo >> 1 = 2^32\<close>) and \<open>01\<close> encodes \<open>hi = 1\<close>. The decoder
  returns the double with bit pattern \<open>2^32 + 2^32 = 0x200000000\<close>, while
  \<open>hi << 32 | (lo >> 1)\<close> is \<open>0x100000000\<close>.
\<close>

theorem LuaJITDecodeKNum_or_counterexample:
  "ULEB128 \<lparr>buf = [0x81, 0x80, 0x80, 0x80, 0x20, 0x01], pos = 0,
            Endian = decode_LittleEndian, children = []\<rparr> =
     Inr (0x200000001, \<lparr>buf = [0x01], pos = 5, Endian = decode_LittleEndian, children = []\<rparr>) \<and>
   ULEB128 \<lparr>buf = [0x01], pos = 5, Endian = decode_LittleEndian, children = []\<rparr> =
     Inr (1, \<lparr>buf = [], pos = 6, Endian = decode_LittleEndian, children = []\<rparr>) \<and>
   LuaJITDecodeKNum \<lparr>buf = [0x81, 0x80, 0x80, 0x80, 0x20, 0x01], pos = 0,
            Endian = decode_LittleEndian, children = []\<rparr> =
     Inr (any_float64 (Float64frombits 0x200000000),
          \<lparr>buf = [], pos = 6, Endian = decode_LittleEndian, children = []\<rparr>) \<and>
   (push_bit 32 1 OR drop_bit 1 0x200000001 :: uint64) = 0x100000000 \<and>
   Float64frombits 0x200000000 \<noteq> Float64frombits (push_bit 32 1 OR drop_bit 1 0x200000001)"
  by (simp add: LuaJITDecodeKNum_def bnd_def ret_def ULEB128_def u64tof64_def
      BigEndian_PutUint64_def)

text \<open>
  Claim C9, as the code has it. \<open>LuaJITDecodeCplx\<close> and \<open>LuaJITDecodeKNum\<close> are the
  same function of the decoder state: on every state both fail alike or return the same
  value and leave the same state behind (the same bytes consumed). Their common scheme:
  read \<open>lo\<close>; if it is even the value is the integer \<open>lo >> 1\<close>; if it is odd read \<open>hi\<close>
  and the value is the double with the bit pattern \<open>(hi << 32) + (lo >> 1)\<close>, a 64-bit sum
  with wrap-around, which is \<open>hi << 32 | (lo >> 1)\<close> whenever \<open>lo >> 1\<close> is below \<open>2^32\<close>.
\<close>

theorem LuaJITDecodeCplx_eq_KNum:
  "LuaJITDecodeCplx = LuaJITDecodeKNum \<and>
   (\<forall>e. ULEB128 d = Inl e \<longrightarrow> LuaJITDecodeCplx d = Inl e \<and> LuaJITDecodeKNum d = Inl e) \<and>
   (\<forall>lo d1. ULEB128 d = Inr (lo, d1) \<longrightarrow>
      (lo AND 1 = 0 \<longrightarrow>
         LuaJITDecodeCplx d = Inr (any_uint64 (drop_bit 1 lo), d1) \<and>
         LuaJITDecodeKNum d = Inr (any_uint64 (drop_bit 1 lo), d1)) \<and>
      (lo AND 1 \<noteq> 0 \<longrightarrow>
         (\<forall>e. ULEB128 d1 = Inl e \<longrightarrow>
            LuaJITDecodeCplx d = Inl e \<and> LuaJITDecodeKNum d = Inl e) \<and>
         (\<forall>hi d2. ULEB128 d1 = Inr (hi, d2) \<longrightarrow>
            LuaJITDecodeCplx d =
              Inr (any_float64 (Float64frombits (push_bit 32 hi + drop_bit 1 lo)), d2) \<and>
            LuaJITDecodeKNum d =
              Inr (any_float64 (Float64frombits (push_bit 32 hi + drop_bit 1 lo)), d2) \<and>
            (drop_bit 1 lo < 2 ^ 32 \<longrightarrow>
               LuaJITDecodeCplx d =
                 Inr (any_float64 (Float64frombits (push_bit 32 hi OR drop_bit 1 lo)), d2)))))"
  by (auto simp: LuaJITDecodeCplx_def LuaJITDecodeKNum_def bnd_def ret_def u64tof64_bits
      add_eq_or_below)

theorem LuaJITDecodeCplx_eq_KNum_witness:
  "LuaJITDecodeCplx \<lparr>buf = [0x05, 0x00, 0x07], pos = 0, Endian = decode_LittleEndian, children = []\<rparr> =
     Inr (any_float64 (Float64frombits 2),
          \<lparr>buf = [0x07], pos = 2, Endian = decode_LittleEndian, children = []\<rparr>) \<and>
   LuaJITDecodeKNum \<lparr>buf = [0x05, 0x00, 0x07], pos = 0, Endian = decode_LittleEndian, children = []\<rparr> =
     Inr (any_float64 (Float64frombits 2),
          \<lparr>buf = [0x07], pos = 2, Endian = decode_LittleEndian, children = []\<rparr>) \<and>
   LuaJITDecodeCplx \<lparr>buf = [0x04, 0x07], pos = 0, Endian = decode_LittleEndian, children = []\<rparr> =
     Inr (any_uint64 2, \<lparr>buf = [0x07], pos = 1, Endian = decode_LittleEndian, children = []\<rparr>) \<and>
   LuaJITDecodeCplx \<lparr>buf = [0x81], pos = 0, Endian = decode_LittleEndian, children = []\<rparr> =
     Inl OutOfInput"
  using LuaJITDecodeCplx_eq_KNum
      [of "\<lparr>buf = [0x05, 0x00, 0x07], pos = 0, Endian = decode_LittleEndian, children = []\<rparr>"]
    LuaJITDecodeCplx_eq_KNum
      [of "\<lparr>buf = [0x04, 0x07], pos = 0, Endian = decode_LittleEndian, children = []\<rparr>"]
    LuaJITDecodeCplx_eq_KNum
      [of "\<lparr>buf = [0x81], pos = 0, Endian = decode_LittleEndian, children = []\<rparr>"]
  by (simp add: ULEB128_def)

text \<open>
  Where the common value is not the OR: on the bytes \<open>81 80 80 80 20 01\<close>
  (\<open>lo = 0x200000001\<close>, \<open>hi = 1\<close>) both routines return the double with bit pattern
  \<open>0x200000000\<close>, while \<open>hi << 32 | (lo >> 1)\<close> is \<open>0x100000000\<close>.
\<close>

theorem LuaJITDecodeCplx_or_counterexample:
  "LuaJITDecodeCplx \<lparr>buf = [0x81, 0x80, 0x80, 0x80, 0x20, 0x01], pos = 0,
            Endian = decode_LittleEndian, children = []\<rparr> =
     Inr (any_float64 (Float64frombits 0x200000000),
          \<lparr>buf = [], pos = 6, Endian = decode_LittleEndian, children = []\<rparr>) \<and>
   LuaJITDecodeKNum \<lparr>buf = [0x81, 0x80, 0x80, 0x80, 0x20, 0x01], pos = 0,
            Endian = decode_LittleEndian, children = []\<rparr> =
     Inr (any_float64 (Float64frombits 0x200000000),
          \<lparr>buf = [], pos = 6, Endian = decode_LittleEndian, children = []\<rparr>) \<and>
   uleb128 [0x81, 0x80, 0x80, 0x80, 0x20, 0x01] 0 0 = Some (0x200000001, [0x01]) \<and>
   uleb128 [0x01] 0 0 = Some (1, []) \<and>
   (push_bit 32 1 OR drop_bit 1 0x200000001 :: uint64) = 0x100000000 \<and>
   Float64frombits 0x200000000 \<noteq> Float64frombits (push_bit 32 1 OR drop_bit 1 0x200000001)"
  by (simp add: LuaJITDecodeCplx_def LuaJITDecodeKNum_def bnd_def ret_def ULEB128_def
      u64tof64_def BigEndian_PutUint64_def)

subsection \<open>Scalar mappers\<close>

text \<open>
  Claim C10: each of \<open>jumpBias.MapUint\<close>, \<open>ktabType.MapUint\<close> and
  \<open>kgcType.MapUint\<close> returns a nil error on every scalar, so the toolkit never takes its
  mapper-error branch for them: a field read decorated by one of them never ends in a
  mapper error, and it fails exactly when the read of the raw value fails, with the same
  error.
\<close>

theorem scalar_mappers_return_nil:
  "snd (jumpBias_MapUint u) = None \<and> snd (ktabType_MapUint u) = None \<and>
   snd (kgcType_MapUint u) = None \<and>
   FieldU16 name [jumpBias_MapUint] d \<noteq> Inl (ScalarMapError e) \<and>
   FieldULEB128 name [ktabType_MapUint] d \<noteq> Inl (ScalarMapError e) \<and>
   FieldULEB128 name [kgcType_MapUint] d \<noteq> Inl (ScalarMapError e) \<and>
   apply_mappers [jumpBias_MapUint] u = Inr (fst (jumpBias_MapUint u)) \<and>
   apply_mappers [ktabType_MapUint] u = Inr (fst (ktabType_MapUint u)) \<and>
   apply_mappers [kgcType_MapUint] u = Inr (fst (kgcType_MapUint u)) \<and>
   map_sum id fst (FieldU16 name [jumpBias_MapUint] d) =
     map_sum id (\<lambda>r. fst r - 0x8000) (U16 d) \<and>
   map_sum id fst (FieldULEB128 name [ktabType_MapUint] d) = map_sum id fst (ULEB128 d) \<and>
   map_sum id fst (FieldULEB128 name [kgcType_MapUint] d) = map_sum id fst (ULEB128 d)"
  by (auto simp: jumpBias_MapUint_def ktabType_MapUint_def kgcType_MapUint_def
      FieldU16_def FieldULEB128_def FieldUintFn_def bnd_def U16_def ULEB128_def
      split: sum.splits prod.splits list.splits option.splits)

subsection \<open>Instructions\<close>

lemma sint_minus_bias:
  fixes raw :: uint64
  assumes "raw < 0x10000"
  shows "sint (raw - 0x8000) = uint raw - 0x8000"
proof -
  from assms have r: "uint raw < 0x10000" by (simp add: word_less_def)
  have "sint (raw - 0x8000) = signed_take_bit 63 (take_bit 64 (uint raw - 0x8000))"
    by (simp add: sint_uint uint_word_ariths take_bit_eq_mod)
  also have "\<dots> = signed_take_bit 63 (uint raw - 0x8000)"
    by (simp add: signed_take_bit_take_bit)
  also have "\<dots> = uint raw - 0x8000"
    using r by (intro signed_take_bit_int_eq_self) simp_all
  finally show ?thesis .
qed

lemma u16_bound:
  fixes b0 b1 :: byte
  shows "(push_bit 8 (ucast b0) OR ucast b1 :: uint64) < 0x10000"
proof -
  let ?w = "push_bit 8 (ucast b0) OR ucast b1 :: uint64"
  have "take_bit 16 ?w = ?w"
    by (rule bit_word_eqI) (auto simp: bit_simps dest: bit_imp_le_length)
  then have "?w AND mask 16 = ?w" by (simp add: take_bit_eq_mask)
  then have "uint ?w < 2 ^ 16" by (simp only: mask_eq_iff)
  then show ?thesis by (simp add: word_less_def)
qed

lemma FieldU8_Cons:
  "buf d = b # bs \<Longrightarrow>
   FieldU8 name [] d =
     Inr (ucast b, addField name (Scalar (any_uint64 (ucast b)) None)
                     (d\<lparr>buf := bs, pos := pos d + 1\<rparr>))"
  by (simp add: FieldU8_def FieldUintFn_def bnd_def U8_def)

lemma unat_ucast_byte: "unat (ucast (b::byte) :: uint64) = unat b"
proof -
  have "unat b < 2 ^ 8" using unsigned_less[of b] by simp
  then have "unat b < 2 ^ 64" by simp
  then show ?thesis by (simp add: unsigned_ucast_eq take_bit_nat_eq_self)
qed

lemma sint_ucast_byte: "sint (ucast (b::byte) :: uint64) = int (unat b)"
proof -
  have "uint b < 2 ^ 8" using uint_lt2p[of b] by simp
  then have "uint b < 2 ^ 63" by simp
  moreover have "- (2 ^ 63) \<le> uint b"
    by (rule order_trans[of _ 0]) simp_all
  ultimately have "signed_take_bit 63 (uint b) = uint b"
    by (rule signed_take_bit_int_eq_self[rotated])
  then show ?thesis
    by (simp add: signed_ucast_eq)
qed

lemma index_opcodes_byte:
  "index_opcodes opcodes (sint (ucast (b::byte) :: uint64)) d =
     (if unat b < length opcodes then Inr (opcodes ! unat b, d) else Inl IndexOutOfRange)"
  by (simp add: index_opcodes_def sint_ucast_byte)

lemma FieldU8_sym_Cons:
  "buf d = b # bs \<Longrightarrow>
   FieldU8 name [bcOpSyms opcodes] d =
     (if unat b < length opcodes
      then Inr (ucast b,
             addField name
               (Scalar (any_uint64 (ucast b)) (Some (Name (opcodes ! unat b))))
               (d\<lparr>buf := bs, pos := pos d + 1\<rparr>))
      else Inl UnknownOpcode)"
  by (simp add: FieldU8_def FieldUintFn_def bnd_def U8_def bcOpSyms_def unat_ucast_byte)

lemma FieldU16_Cons:
  "buf d = b0 # b1 # bs \<Longrightarrow>
   FieldU16 name [] d =
     (let raw = (if Endian d = decode_BigEndian
                 then push_bit 8 (ucast b0) OR ucast b1
                 else push_bit 8 (ucast b1) OR ucast b0) in
      Inr (raw, addField name (Scalar (any_uint64 raw) None) (d\<lparr>buf := bs, pos := pos d + 2\<rparr>)))"
  by (simp add: FieldU16_def FieldUintFn_def bnd_def U16_def Let_def)

lemma FieldU16_jumpBias_Cons:
  "buf d = b0 # b1 # bs \<Longrightarrow>
   FieldU16 name [jumpBias_MapUint] d =
     (let raw = (if Endian d = decode_BigEndian
                 then push_bit 8 (ucast b0) OR ucast b1
                 else push_bit 8 (ucast b1) OR ucast b0) in
      Inr (raw - 0x8000,
           addField name (Scalar (any_uint64 (raw - 0x8000)) None)
             (d\<lparr>buf := bs, pos := pos d + 2\<rparr>)))"
  by (simp add: FieldU16_def FieldUintFn_def bnd_def U16_def jumpBias_MapUint_def Let_def)

text \<open>
  Claim C2, as the code has it. For an instruction whose opcode has a wide operand and is
  flagged as a jump, the exposed operand \<open>j\<close> is the raw 16-bit value (read in the active
  byte order) minus \<open>0x8000\<close>, computed in the toolkit's unsigned 64-bit scalar and
  exposed as an unsigned value: it is \<open>(raw - 0x8000) mod 2^64\<close>. Only when these 64
  bits are read as a signed quantity do they denote \<open>raw - 0x8000\<close>.
\<close>

theorem jump_operand_bias:
  assumes "buf d = op # a # b0 # b1 # bs"
    and "unat op < length opcodes"
    and "HasD (opcodes ! unat op)" and "IsJump (opcodes ! unat op)"
    and "raw = (if Endian d = decode_BigEndian
                then push_bit 8 (ucast b0) OR ucast b1
                else push_bit 8 (ucast b1) OR ucast b0)"
  shows "\<exists>j. LuaJITDecodeBCIns opcodes d =
           Inr ((), d\<lparr>buf := bs, pos := pos d + 4,
                      children := children d @
                        [(''op'', Scalar (any_uint64 (ucast op)) (Some (Name (opcodes ! unat op)))),
                         (''a'', Scalar (any_uint64 (ucast a)) None),
                         (''j'', Scalar (any_uint64 j) None)]\<rparr>) \<and>
         j = raw - 0x8000 \<and> uint raw < 0x10000 \<and>
         uint j = (uint raw - 0x8000) mod 2 ^ 64 \<and> sint j = uint raw - 0x8000"
proof -
  have "raw < 0x10000" using assms(5) u16_bound by simp
  then have "uint raw < 0x10000" "sint (raw - 0x8000) = uint raw - 0x8000"
    by (simp_all add: word_less_def sint_minus_bias)
  moreover have "uint (raw - 0x8000) = (uint raw - 0x8000) mod 2 ^ 64"
    by (simp add: uint_word_ariths)
  moreover have "LuaJITDecodeBCIns opcodes d =
           Inr ((), d\<lparr>buf := bs, pos := pos d + 4,
                      children := children d @
                        [(''op'', Scalar (any_uint64 (ucast op)) (Some (Name (opcodes ! unat op)))),
                         (''a'', Scalar (any_uint64 (ucast a)) None),
                         (''j'', Scalar (any_uint64 (raw - 0x8000)) None)]\<rparr>)"
    using assms
    by (simp add: LuaJITDecodeBCIns_def bnd_def ret_def FieldU8_sym_Cons FieldU8_Cons
        index_opcodes_byte FieldU16_jumpBias_Cons addField_def Let_def)
  ultimately show ?thesis by blast
qed

text \<open>
  Raw \<open>0x7FFF\<close> is exposed as \<open>0xFFFFFFFFFFFFFFFF\<close> (whose signed reading is \<open>-1\<close>),
  raw \<open>0x8005\<close> as 5 and raw \<open>0x8000\<close> as 0.
\<close>

theorem jump_operand_bias_witness:
  "(\<exists>j. LuaJITDecodeBCIns [\<lparr>Name = ''JMP'', HasD = True, IsJump = True\<rparr>]
          \<lparr>buf = [0x00, 0x01, 0xFF, 0x7F], pos = 0, Endian = decode_LittleEndian, children = []\<rparr> =
        Inr ((), \<lparr>buf = [], pos = 4, Endian = decode_LittleEndian,
                  children = [(''op'', Scalar (any_uint64 0) (Some ''JMP'')),
                              (''a'', Scalar (any_uint64 1) None),
                              (''j'', Scalar (any_uint64 j) None)]\<rparr>) \<and>
        j = 0xFFFFFFFFFFFFFFFF \<and> uint j = 18446744073709551615 \<and> sint j = - 1) \<and>
   (\<exists>j. LuaJITDecodeBCIns [\<lparr>Name = ''JMP'', HasD = True, IsJump = True\<rparr>]
          \<lparr>buf = [0x00, 0x01, 0x80, 0x05], pos = 0, Endian = decode_BigEndian, children = []\<rparr> =
        Inr ((), \<lparr>buf = [], pos = 4, Endian = decode_BigEndian,
                  children = [(''op'', Scalar (any_uint64 0) (Some ''JMP'')),
                              (''a'', Scalar (any_uint64 1) None),
                              (''j'', Scalar (any_uint64 j) None)]\<rparr>) \<and>
        j = 5 \<and> uint j = 5 \<and> sint j = 5) \<and>
   (\<exists>j. LuaJITDecodeBCIns [\<lparr>Name = ''JMP'', HasD = True, IsJump = True\<rparr>]
          \<lparr>buf = [0x00, 0x01, 0x00, 0x80], pos = 0, Endian = decode_LittleEndian, children = []\<rparr> =
        Inr ((), \<lparr>buf = [], pos = 4, Endian = decode_LittleEndian,
                  children = [(''op'', Scalar (any_uint64 0) (Some ''JMP'')),
                              (''a'', Scalar (any_uint64 1) None),
                              (''j'', Scalar (any_uint64 j) None)]\<rparr>) \<and>
        j = 0 \<and> uint j = 0 \<and> sint j = 0)"
  using
    jump_operand_bias [of
      "\<lparr>buf = [0x00, 0x01, 0xFF, 0x7F], pos = 0, Endian = decode_LittleEndian, children = []\<rparr>"
      0 1 "0xFF" "0x7F" "[]" "[\<lparr>Name = ''JMP'', HasD = True, IsJump = True\<rparr>]" "0x7FFF"]
    jump_operand_bias [of
      "\<lparr>buf = [0x00, 0x01, 0x80, 0x05], pos = 0, Endian = decode_BigEndian, children = []\<rparr>"
      0 1 "0x80" "0x05" "[]" "[\<lparr>Name = ''JMP'', HasD = True, IsJump = True\<rparr>]" "0x8005"]
    jump_operand_bias [of
      "\<lparr>buf = [0x00, 0x01, 0x00, 0x80], pos = 0, Endian = decode_LittleEndian, children = []\<rparr>"
      0 1 "0x00" "0x80" "[]" "[\<lparr>Name = ''JMP'', HasD = True, IsJump = True\<rparr>]" "0x8000"]
  by simp

text \<open>
  Raw \<open>0x7FFF\<close> does not yield \<open>-1\<close>: the field \<open>j\<close> of the tree holds the unsigned
  64-bit value 18446744073709551615, not a signed integer.
\<close>

theorem jump_operand_unsigned_counterexample:
  "LuaJITDecodeBCIns [\<lparr>Name = ''JMP'', HasD = True, IsJump = True\<rparr>]
     \<lparr>buf = [0x00, 0x01, 0xFF, 0x7F], pos = 0, Endian = decode_LittleEndian, children = []\<rparr> =
   Inr ((), \<lparr>buf = [], pos = 4, Endian = decode_LittleEndian,
             children = [(''op'', Scalar (any_uint64 0) (Some ''JMP'')),
                         (''a'', Scalar (any_uint64 1) None),
                         (''j'', Scalar (any_uint64 0xFFFFFFFFFFFFFFFF) None)]\<rparr>) \<and>
   uint (0xFFFFFFFFFFFFFFFF :: uint64) = 18446744073709551615 \<and>
   Scalar (any_uint64 0xFFFFFFFFFFFFFFFF) None \<noteq> Scalar (any_int64 (- 1)) None"
  by (simp add: LuaJITDecodeBCIns_def bnd_def ret_def FieldU8_sym_Cons FieldU8_Cons
      index_opcodes_def FieldU16_jumpBias_Cons addField_def Let_def)

lemma FieldU8_error: "FieldU8 name [] d = Inl e \<Longrightarrow> e = OutOfInput"
  by (auto simp: FieldU8_def FieldUintFn_def bnd_def U8_def split: list.splits sum.splits)

lemma FieldU16_error: "FieldU16 name sms d = Inl e \<Longrightarrow> (\<exists>s. apply_mappers sms s = Inl e) \<or> e = OutOfInput"
  by (auto simp: FieldU16_def FieldUintFn_def bnd_def U16_def split: list.splits sum.splits)

lemma BCIns_shape:
  "LuaJITDecodeBCIns opcodes d =
     (case buf d of
        [] \<Rightarrow> Inl OutOfInput
      | op # rest \<Rightarrow>
          if \<not> unat op < length opcodes then Inl UnknownOpcode
          else (case rest of
                  [] \<Rightarrow> Inl OutOfInput
                | a # ops \<Rightarrow>
                    (if HasD (opcodes ! unat op) then
                       (if IsJump (opcodes ! unat op) then
                          bnd (FieldU16 ''j'' [jumpBias_MapUint]) (\<lambda>_. ret ())
                        else bnd (FieldU16 ''d'' []) (\<lambda>_. ret ()))
                     else
                       bnd (FieldU8 ''c'' []) (\<lambda>_.
                       bnd (FieldU8 ''b'' []) (\<lambda>_. ret ())))
                      (d\<lparr>buf := ops, pos := pos d + 2,
                         children := children d @
                           [(''op'', Scalar (any_uint64 (ucast op))
                                (Some (Name (opcodes ! unat op)))),
                            (''a'', Scalar (any_uint64 (ucast a)) None)]\<rparr>)))"
proof (cases "buf d")
  case Nil
  then show ?thesis
    by (simp add: LuaJITDecodeBCIns_def bnd_def FieldU8_def FieldUintFn_def U8_def)
next
  case (Cons op rest)
  note c = this
  show ?thesis
  proof (cases rest)
    case Nil
    with c show ?thesis
      by (simp add: LuaJITDecodeBCIns_def bnd_def FieldU8_sym_Cons addField_def
          FieldU8_def[of "''a''"] FieldUintFn_def U8_def)
  next
    case (Cons a ops)
    with c show ?thesis
      by (simp add: LuaJITDecodeBCIns_def bnd_def FieldU8_sym_Cons FieldU8_Cons addField_def
          index_opcodes_byte)
  qed
qed

lemma BCIns_error:
  assumes "LuaJITDecodeBCIns opcodes d = Inl e"
  shows "e = OutOfInput \<or> e = UnknownOpcode"
  using assms unfolding BCIns_shape
  by (auto simp: bnd_def ret_def jumpBias_MapUint_def split: list.splits if_splits sum.splits
      dest!: FieldU16_error FieldU8_error)

lemma BCIns_success:
  assumes "LuaJITDecodeBCIns opcodes d = Inr (u, d')"
  shows "\<exists>op rest fs. buf d = op # rest \<and> unat op < length opcodes \<and>
           children d' = children d @
             (''op'', Scalar (any_uint64 (ucast op)) (Some (Name (opcodes ! unat op)))) # fs"
  using assms unfolding BCIns_shape
  by (auto simp: bnd_def ret_def FieldU16_def FieldU8_def FieldUintFn_def U16_def U8_def
      jumpBias_MapUint_def addField_def
      split: list.splits if_splits sum.splits)

text \<open>
  Claim C3: an opcode byte with no entry in the opcode table ends the decode of the
  instruction with the error \<open>UnknownOpcode\<close>, raised by the bounds-checked lookup of the
  \<open>op\<close> field before anything else is read. The decoder never faults: no input and no
  table makes it index the table out of range. It never falls back on a default entry: when
  an instruction decodes, its opcode has an entry and the \<open>op\<close> field carries the name of
  that entry.
\<close>

theorem unknown_opcode_error:
  "(\<forall>op rest. buf d = op # rest \<and> length opcodes \<le> unat op \<longrightarrow>
      LuaJITDecodeBCIns opcodes d = Inl UnknownOpcode) \<and>
   LuaJITDecodeBCIns opcodes d \<noteq> Inl IndexOutOfRange \<and>
   (\<forall>u d'. LuaJITDecodeBCIns opcodes d = Inr (u, d') \<longrightarrow>
      (\<exists>op rest fs. buf d = op # rest \<and> unat op < length opcodes \<and>
         children d' = children d @
           (''op'', Scalar (any_uint64 (ucast op)) (Some (Name (opcodes ! unat op)))) # fs))"
proof (intro conjI allI impI)
  fix op rest
  assume "buf d = op # rest \<and> length opcodes \<le> unat op"
  then show "LuaJITDecodeBCIns opcodes d = Inl UnknownOpcode"
    by (simp add: BCIns_shape)
next
  show "LuaJITDecodeBCIns opcodes d \<noteq> Inl IndexOutOfRange"
    using BCIns_error[of opcodes d IndexOutOfRange] by auto
next
  fix u d'
  assume "LuaJITDecodeBCIns opcodes d = Inr (u, d')"
  then show "\<exists>op rest fs. buf d = op # rest \<and> unat op < length opcodes \<and>
         children d' = children d @
           (''op'', Scalar (any_uint64 (ucast op)) (Some (Name (opcodes ! unat op)))) # fs"
    by (rule BCIns_success)
qed

theorem unknown_opcode_error_witness:
  "LuaJITDecodeBCIns
     [\<lparr>Name = ''ISLT'', HasD = True, IsJump = False\<rparr>, \<lparr>Name = ''ISGE'', HasD = True, IsJump = False\<rparr>]
     \<lparr>buf = [0xFF, 0x00, 0x00, 0x00], pos = 0, Endian = decode_LittleEndian, children = []\<rparr> =
   Inl UnknownOpcode"
  using unknown_opcode_error [of
      "\<lparr>buf = [0xFF, 0x00, 0x00, 0x00], pos = 0, Endian = decode_LittleEndian, children = []\<rparr>"
      "[\<lparr>Name = ''ISLT'', HasD = True, IsJump = False\<rparr>, \<lparr>Name = ''ISGE'', HasD = True, IsJump = False\<rparr>]"]
  by simp

subsection \<open>Header\<close>

lemma FieldRawLen_magic:
  "FieldRawLen ''magic'' 24 (AssertBitBuf m) d =
     (if length (buf d) < 3 then Inl OutOfInput
      else if take 3 (buf d) = m
      then Inr ((), addField ''magic'' (Scalar (any_raw (take 3 (buf d))) None)
                      (d\<lparr>buf := drop 3 (buf d), pos := pos d + 3\<rparr>))
      else Inl InvalidFormat)"
  by (simp add: FieldRawLen_def AssertBitBuf_def)

lemma FieldULEB128_error: "FieldULEB128 name [] d = Inl e \<Longrightarrow> e = OutOfInput"
  by (auto simp: FieldULEB128_def FieldUintFn_def bnd_def ULEB128_def
      split: option.splits sum.splits)

lemma FieldU8_value:
  "FieldU8 name [] d = Inr (v, d') \<Longrightarrow> \<exists>b::byte. v = ucast b"
  by (auto simp: FieldU8_def FieldUintFn_def bnd_def U8_def split: list.splits sum.splits)

lemma header_after_magic_error:
  assumes "take 3 (buf d) = [0x1b, 0x4c, 0x4a]" and "LuaJITDecodeHeader di d = Inl e"
  shows "e = OutOfInput"
proof -
  have l: "\<not> length (buf d) < 3" using assms(1) by (auto dest: arg_cong[of _ _ length])
  show ?thesis
    using assms l
    unfolding LuaJITDecodeHeader_def
    by (auto simp: FieldRawLen_magic bnd_def ret_def FieldStruct_def FieldValueBool_def
        FieldStr_def Let_def sint_ucast_byte
        split: sum.splits if_splits dest!: FieldU8_error FieldULEB128_error FieldU8_value)
qed


lemma take3_length: "take 3 xs = [a, b, c] \<Longrightarrow> \<not> length xs < 3"
  by (auto dest: arg_cong[of _ _ length])

lemma LuaJITDecode_header_error:
  "LuaJITDecodeHeader \<lparr>Strip = False, BigEndian = False\<rparr> (d\<lparr>children := []\<rparr>) = Inl e \<Longrightarrow>
   LuaJITDecode opcodes d = Inl e"
  by (simp add: LuaJITDecode_def bnd_def FieldStruct_def)

lemma header_bad_magic:
  assumes "take 3 (buf d) \<noteq> [0x1b, 0x4c, 0x4a]"
  shows "LuaJITDecodeHeader di d = Inl (if length (buf d) < 3 then OutOfInput else InvalidFormat)"
  using assms by (simp add: LuaJITDecodeHeader_def bnd_def FieldRawLen_magic)

lemma low7:
  fixes f :: byte
  assumes "f AND 0x80 = 0"
  shows "f AND 0x7f = f"
proof -
  have "(0x7f OR 0x80 :: byte) = - 1" by simp
  then have "f = f AND (0x7f OR 0x80)" by (simp only: and.right_neutral)
  also have "\<dots> = (f AND 0x7f) OR (f AND 0x80)" by (rule bit.conj_disj_distrib)
  finally show ?thesis using assms by simp
qed

lemma uleb128_single:
  "f AND 0x80 = 0 \<Longrightarrow> uleb128 (f # rest) 0 0 = Some (ucast f, rest)"
  by (simp add: low7)

lemma FieldULEB128_single:
  "buf d = f # rest \<Longrightarrow> f AND 0x80 = 0 \<Longrightarrow>
   FieldULEB128 name [] d =
     Inr (ucast f, addField name (Scalar (any_uint64 (ucast f)) None)
                     (d\<lparr>buf := rest, pos := pos d + 1\<rparr>))"
  by (simp add: FieldULEB128_def FieldUintFn_def bnd_def ULEB128_def uleb128_single
      del: uleb128.simps)

lemma header_stripped:
  assumes "buf d = [0x1b, 0x4c, 0x4a, ver, f] @ rest" and "f AND 0x80 = 0"
    and "(ucast f :: uint64) AND 0x02 > 0"
  shows "LuaJITDecodeHeader di d =
           Inr (di\<lparr>Strip := True, BigEndian := (ucast f :: uint64) AND 0x01 > 0\<rparr>,
                d\<lparr>buf := rest, pos := pos d + 5,
                   children := children d @
                     [(''magic'', Scalar (any_raw [0x1b, 0x4c, 0x4a]) None),
                      (''version'', Scalar (any_uint64 (ucast ver)) None),
                      (''flags'', Struct
                         [(''raw'', Scalar (any_uint64 (ucast f)) None),
                          (''be'', Scalar (any_bool ((ucast f :: uint64) AND 0x01 > 0)) None),
                          (''strip'', Scalar (any_bool True) None),
                          (''ffi'', Scalar (any_bool ((ucast f :: uint64) AND 0x04 > 0)) None),
                          (''fr2'', Scalar (any_bool ((ucast f :: uint64) AND 0x08 > 0)) None)])]\<rparr>)"
  using assms
  by (simp add: LuaJITDecodeHeader_def bnd_def ret_def FieldRawLen_magic FieldU8_Cons
      FieldStruct_def FieldULEB128_single FieldValueBool_def addField_def Let_def)

text \<open>
  Claim C8: an input whose first 3 bytes are not \<open>1B 4C 4A\<close> fails with
  \<open>InvalidFormat\<close>, in the header decoder and in the whole decode, and an error leaves
  no tree at all (an input with fewer than 3 bytes fails too, as out of input). When the
  first 3 bytes match, header decoding goes on: it never ends in \<open>InvalidFormat\<close>, it can
  only run out of input, and for example with a version byte and a one-byte flags value
  with the strip bit set it returns the header fields and the flags.
\<close>

theorem magic_check:
  "(3 \<le> length (buf d) \<and> take 3 (buf d) \<noteq> [0x1b, 0x4c, 0x4a] \<longrightarrow>
      LuaJITDecodeHeader di d = Inl InvalidFormat \<and> LuaJITDecode opcodes d = Inl InvalidFormat) \<and>
   (take 3 (buf d) \<noteq> [0x1b, 0x4c, 0x4a] \<longrightarrow> (\<exists>e. LuaJITDecode opcodes d = Inl e)) \<and>
   (take 3 (buf d) = [0x1b, 0x4c, 0x4a] \<longrightarrow>
      (\<forall>e. LuaJITDecodeHeader di d = Inl e \<longrightarrow> e = OutOfInput) \<and>
      (\<forall>ver f rest. buf d = [0x1b, 0x4c, 0x4a, ver, f] @ rest \<and> f AND 0x80 = 0 \<and>
           (ucast f :: uint64) AND 0x02 > 0 \<longrightarrow>
         LuaJITDecodeHeader di d =
           Inr (di\<lparr>Strip := True, BigEndian := (ucast f :: uint64) AND 0x01 > 0\<rparr>,
                d\<lparr>buf := rest, pos := pos d + 5,
                   children := children d @
                     [(''magic'', Scalar (any_raw [0x1b, 0x4c, 0x4a]) None),
                      (''version'', Scalar (any_uint64 (ucast ver)) None),
                      (''flags'', Struct
                         [(''raw'', Scalar (any_uint64 (ucast f)) None),
                          (''be'', Scalar (any_bool ((ucast f :: uint64) AND 0x01 > 0)) None),
                          (''strip'', Scalar (any_bool True) None),
                          (''ffi'', Scalar (any_bool ((ucast f :: uint64) AND 0x04 > 0)) None),
                          (''fr2'', Scalar (any_bool ((ucast f :: uint64) AND 0x08 > 0)) None)])]\<rparr>)))"
proof (intro conjI impI allI)
  assume a: "3 \<le> length (buf d) \<and> take 3 (buf d) \<noteq> [0x1b, 0x4c, 0x4a]"
  then show "LuaJITDecodeHeader di d = Inl InvalidFormat"
    using header_bad_magic[of d di] by simp
  from a show "LuaJITDecode opcodes d = Inl InvalidFormat"
    using header_bad_magic[of "d\<lparr>children := []\<rparr>" "\<lparr>Strip = False, BigEndian = False\<rparr>"]
    by (intro LuaJITDecode_header_error) simp
next
  assume "take 3 (buf d) \<noteq> [0x1b, 0x4c, 0x4a]"
  then show "\<exists>e. LuaJITDecode opcodes d = Inl e"
    using header_bad_magic[of "d\<lparr>children := []\<rparr>" "\<lparr>Strip = False, BigEndian = False\<rparr>"]
      LuaJITDecode_header_error by simp
next
  fix e
  assume "take 3 (buf d) = [0x1b, 0x4c, 0x4a]" and "LuaJITDecodeHeader di d = Inl e"
  then show "e = OutOfInput" by (rule header_after_magic_error)
next
  fix ver f rest
  assume "buf d = [0x1b, 0x4c, 0x4a, ver, f] @ rest \<and> f AND 0x80 = 0 \<and>
           (ucast f :: uint64) AND 0x02 > 0"
  then show "LuaJITDecodeHeader di d =
           Inr (di\<lparr>Strip := True, BigEndian := (ucast f :: uint64) AND 0x01 > 0\<rparr>,
                d\<lparr>buf := rest, pos := pos d + 5,
                   children := children d @
                     [(''magic'', Scalar (any_raw [0x1b, 0x4c, 0x4a]) None),
                      (''version'', Scalar (any_uint64 (ucast ver)) None),
                      (''flags'', Struct
                         [(''raw'', Scalar (any_uint64 (ucast f)) None),
                          (''be'', Scalar (any_bool ((ucast f :: uint64) AND 0x01 > 0)) None),
                          (''strip'', Scalar (any_bool True) None),
                          (''ffi'', Scalar (any_bool ((ucast f :: uint64) AND 0x04 > 0)) None),
                          (''fr2'', Scalar (any_bool ((ucast f :: uint64) AND 0x08 > 0)) None)])]\<rparr>)"
    using header_stripped by blast
qed

theorem magic_check_witness:
  "LuaJITDecode []
     \<lparr>buf = [0x1b, 0x4c, 0x4b, 0x02, 0x02, 0x00], pos = 0, Endian = decode_LittleEndian,
      children = []\<rparr> = Inl InvalidFormat \<and>
   LuaJITDecodeHeader \<lparr>Strip = False, BigEndian = False\<rparr>
     \<lparr>buf = [0x1b, 0x4c, 0x4a, 0x02, 0x03, 0x00], pos = 0, Endian = decode_LittleEndian,
      children = []\<rparr> =
     Inr (\<lparr>Strip = True, BigEndian = True\<rparr>,
          \<lparr>buf = [0x00], pos = 5, Endian = decode_LittleEndian,
           children =
             [(''magic'', Scalar (any_raw [0x1b, 0x4c, 0x4a]) None),
              (''version'', Scalar (any_uint64 2) None),
              (''flags'', Struct
                 [(''raw'', Scalar (any_uint64 3) None),
                  (''be'', Scalar (any_bool True) None),
                  (''strip'', Scalar (any_bool True) None),
                  (''ffi'', Scalar (any_bool False) None),
                  (''fr2'', Scalar (any_bool False) None)])]\<rparr>)"
  using
    magic_check [of
      "\<lparr>buf = [0x1b, 0x4c, 0x4b, 0x02, 0x02, 0x00], pos = 0, Endian = decode_LittleEndian,
        children = []\<rparr>" "\<lparr>Strip = False, BigEndian = False\<rparr>" "[]"]
    magic_check [of
      "\<lparr>buf = [0x1b, 0x4c, 0x4a, 0x02, 0x03, 0x00], pos = 0, Endian = decode_LittleEndian,
        children = []\<rparr>" "\<lparr>Strip = False, BigEndian = False\<rparr>" "[]"]
  by simp

subsection \<open>GC constants\<close>

lemma FieldAnyFn_pair:
  assumes "uleb128 (buf d) 0 0 = Some (lo, bs2)" and "uleb128 bs2 0 0 = Some (hi, bs3)"
  shows "FieldAnyFn name (bnd ULEB128 (\<lambda>lo. bnd ULEB128 (\<lambda>hi. ret (f lo hi)))) d =
     Inr ((), d\<lparr>buf := bs3, pos := pos d + (length (buf d) - length bs3),
                children := children d @ [(name, Scalar (f lo hi) None)]\<rparr>)"
proof -
  from uleb128_suffix[OF assms(1)] uleb128_suffix[OF assms(2)]
  have "length bs2 \<le> length (buf d)" "length bs3 \<le> length bs2" by auto
  then have "length (buf d) - length bs2 + (length bs2 - length bs3) = length (buf d) - length bs3"
    by simp
  then show ?thesis
    using assms by (simp add: FieldAnyFn_def bnd_def ret_def ULEB128_def addField_def add.assoc)
qed

lemma nat_sint_nonneg:
  fixes w :: uint64
  assumes "0 \<le> sint w"
  shows "nat (sint w) = unat w"
proof -
  have "sint w < 2 ^ 63" using sint_lt[of w] by simp
  then have "sint w < 2 ^ 64" by simp
  with assms have "take_bit 64 (sint w) = sint w" by (simp add: take_bit_int_eq_self)
  then have "uint w = sint w" using uint_sint[of w] by simp
  then show ?thesis by (metis nat_uint_eq)
qed

lemma FieldStr_sint:
  "bnd (FieldStr name (sint (n::uint64))) (\<lambda>_. ret ()) d =
     (if sint n < 0 then Inl NegativeLength
      else if length (buf d) < unat n then Inl OutOfInput
      else Inr ((), d\<lparr>buf := drop (unat n) (buf d), pos := pos d + unat n,
                      children := children d @
                        [(name, Scalar (any_string (take (unat n) (buf d))) None)]\<rparr>))"
  by (simp add: bnd_def ret_def FieldStr_def addField_def nat_sint_nonneg)

lemma uleb128_length: "uleb128 bs s r = Some (v, bs') \<Longrightarrow> length bs' \<le> length bs"
  by (drule uleb128_suffix) auto

lemma small_tags:
  "\<not> 5 \<le> (0::uint64)" "\<not> 5 \<le> (1::uint64)" "\<not> 5 \<le> (2::uint64)"
  "\<not> 5 \<le> (3::uint64)" "\<not> 5 \<le> (4::uint64)"
  by (simp_all add: word_le_def)

text \<open>
  Claim C7, as the code has it. After the type tag, \<open>LuaJITDecodeKGC\<close> reads: for tag 0
  nothing; for tag 1 one nested table constant (the two counts, \<open>narray\<close> table entries
  and \<open>nhash\<close> key/value pairs); for tag 2 two variable-length integers \<open>lo\<close>, \<open>hi\<close>
  combined as the 64-bit sum \<open>(hi << 32) + lo\<close> and exposed as a signed 64-bit integer;
  for tag 3 the same sum exposed unsigned; for tag 4 two such pairs, each sum reinterpreted
  as a double, \<open>real\<close> then \<open>imag\<close>; for a tag of 5 or more exactly \<open>tag - 5\<close> raw
  bytes as a string (an error when fewer bytes are left, or when \<open>tag - 5\<close> is negative as
  a Go \<open>int\<close>). The sum is \<open>hi << 32 | lo\<close> whenever \<open>lo\<close> is below \<open>2^32\<close>.
\<close>

theorem LuaJITDecodeKGC_payload:
  assumes "FieldULEB128 ''type'' [kgcType_MapUint] d = Inr (tag, d1)"
  shows
   "(tag = 0 \<longrightarrow> LuaJITDecodeKGC d = Inr ((), d1)) \<and>
    (tag = 1 \<longrightarrow> LuaJITDecodeKGC d =
       bnd (FieldULEB128 ''narray'' []) (\<lambda>narray.
       bnd (FieldULEB128 ''nhash'' []) (\<lambda>nhash.
       bnd (FieldArray ''karray''
              (for_loop (unat narray) (FieldStruct ''ktab'' LuaJITDecodeKTabK))) (\<lambda>_.
       FieldArray ''khash''
         (for_loop (unat nhash)
            (FieldStruct ''khash''
               (bnd (FieldStruct ''k'' LuaJITDecodeKTabK) (\<lambda>_.
                FieldStruct ''v'' LuaJITDecodeKTabK))))))) d1) \<and>
    (tag = 2 \<longrightarrow> (\<forall>lo bs2 hi bs3.
       uleb128 (buf d1) 0 0 = Some (lo, bs2) \<and> uleb128 bs2 0 0 = Some (hi, bs3) \<longrightarrow>
       LuaJITDecodeKGC d =
         Inr ((), d1\<lparr>buf := bs3, pos := pos d1 + (length (buf d1) - length bs3),
                     children := children d1 @
                       [(''i64'', Scalar (any_int64 (sint (push_bit 32 hi + lo))) None)]\<rparr>) \<and>
       (lo < 2 ^ 32 \<longrightarrow> push_bit 32 hi + lo = push_bit 32 hi OR lo))) \<and>
    (tag = 3 \<longrightarrow> (\<forall>lo bs2 hi bs3.
       uleb128 (buf d1) 0 0 = Some (lo, bs2) \<and> uleb128 bs2 0 0 = Some (hi, bs3) \<longrightarrow>
       LuaJITDecodeKGC d =
         Inr ((), d1\<lparr>buf := bs3, pos := pos d1 + (length (buf d1) - length bs3),
                     children := children d1 @
                       [(''u64'', Scalar (any_uint64 (push_bit 32 hi + lo)) None)]\<rparr>) \<and>
       (lo < 2 ^ 32 \<longrightarrow> push_bit 32 hi + lo = push_bit 32 hi OR lo))) \<and>
    (tag = 4 \<longrightarrow> (\<forall>rlo bs2 rhi bs3 ilo bs4 ihi bs5.
       uleb128 (buf d1) 0 0 = Some (rlo, bs2) \<and> uleb128 bs2 0 0 = Some (rhi, bs3) \<and>
       uleb128 bs3 0 0 = Some (ilo, bs4) \<and> uleb128 bs4 0 0 = Some (ihi, bs5) \<longrightarrow>
       LuaJITDecodeKGC d =
         Inr ((), d1\<lparr>buf := bs5, pos := pos d1 + (length (buf d1) - length bs5),
                     children := children d1 @
                       [(''real'', Scalar (any_float64 (Float64frombits (push_bit 32 rhi + rlo))) None),
                        (''imag'', Scalar (any_float64 (Float64frombits (push_bit 32 ihi + ilo))) None)]\<rparr>))) \<and>
    (tag \<ge> 5 \<longrightarrow>
       (sint (tag - 5) < 0 \<longrightarrow> LuaJITDecodeKGC d = Inl NegativeLength) \<and>
       (0 \<le> sint (tag - 5) \<and> length (buf d1) < unat (tag - 5) \<longrightarrow>
          LuaJITDecodeKGC d = Inl OutOfInput) \<and>
       (0 \<le> sint (tag - 5) \<and> unat (tag - 5) \<le> length (buf d1) \<longrightarrow>
          LuaJITDecodeKGC d =
            Inr ((), d1\<lparr>buf := drop (unat (tag - 5)) (buf d1), pos := pos d1 + unat (tag - 5),
                        children := children d1 @
                          [(''str'', Scalar (any_string (take (unat (tag - 5)) (buf d1))) None)]\<rparr>)))"
proof (intro conjI impI allI)
  assume "tag = 0" then show "LuaJITDecodeKGC d = Inr ((), d1)"
    using assms by (simp add: LuaJITDecodeKGC_def bnd_def ret_def small_tags)
next
  assume "tag = 1"
  then show "LuaJITDecodeKGC d =
       bnd (FieldULEB128 ''narray'' []) (\<lambda>narray.
       bnd (FieldULEB128 ''nhash'' []) (\<lambda>nhash.
       bnd (FieldArray ''karray''
              (for_loop (unat narray) (FieldStruct ''ktab'' LuaJITDecodeKTabK))) (\<lambda>_.
       FieldArray ''khash''
         (for_loop (unat nhash)
            (FieldStruct ''khash''
               (bnd (FieldStruct ''k'' LuaJITDecodeKTabK) (\<lambda>_.
                FieldStruct ''v'' LuaJITDecodeKTabK))))))) d1"
    using assms by (simp add: LuaJITDecodeKGC_def bnd_Inr small_tags)
next
  fix rlo bs2 rhi bs3 ilo bs4 ihi bs5
  assume t: "tag = 4"
    and u: "uleb128 (buf d1) 0 0 = Some (rlo, bs2) \<and> uleb128 bs2 0 0 = Some (rhi, bs3) \<and>
       uleb128 bs3 0 0 = Some (ilo, bs4) \<and> uleb128 bs4 0 0 = Some (ihi, bs5)"
  then have "length bs2 \<le> length (buf d1)" "length bs3 \<le> length bs2"
    "length bs4 \<le> length bs3" "length bs5 \<le> length bs4"
    by (auto dest: uleb128_length)
  then have "length (buf d1) - length bs3 + (length bs3 - length bs5) =
      length (buf d1) - length bs5"
    by simp
  then show "LuaJITDecodeKGC d =
         Inr ((), d1\<lparr>buf := bs5, pos := pos d1 + (length (buf d1) - length bs5),
                     children := children d1 @
                       [(''real'', Scalar (any_float64 (Float64frombits (push_bit 32 rhi + rlo))) None),
                        (''imag'', Scalar (any_float64 (Float64frombits (push_bit 32 ihi + ilo))) None)]\<rparr>)"
    using assms t u
    by (simp add: LuaJITDecodeKGC_def bnd_Inr small_tags FieldAnyFn_pair u64tof64_bits
        add.assoc)
qed (insert assms, simp_all add: LuaJITDecodeKGC_def bnd_Inr small_tags FieldAnyFn_pair
    u64tof64_bits add_eq_or_below FieldStr_sint)

text \<open>
  The specification's examples: tag 2 with \<open>lo = 1\<close>, \<open>hi = 0\<close> is the signed integer
  1; tag 7 is a string of exactly 2 bytes, and the byte behind it stays unread.
\<close>

theorem LuaJITDecodeKGC_payload_witness:
  "LuaJITDecodeKGC \<lparr>buf = [0x02, 0x01, 0x00], pos = 0, Endian = decode_LittleEndian, children = []\<rparr> =
     Inr ((), \<lparr>buf = [], pos = 3, Endian = decode_LittleEndian,
               children = [(''type'', Scalar (any_uint64 2) (Some ''i64'')),
                           (''i64'', Scalar (any_int64 1) None)]\<rparr>) \<and>
   LuaJITDecodeKGC \<lparr>buf = [0x07, 0x61, 0x62, 0x63], pos = 0, Endian = decode_LittleEndian, children = []\<rparr> =
     Inr ((), \<lparr>buf = [0x63], pos = 3, Endian = decode_LittleEndian,
               children = [(''type'', Scalar (any_uint64 7) (Some ''str'')),
                           (''str'', Scalar (any_string [0x61, 0x62]) None)]\<rparr>)"
proof -
  have a: "FieldULEB128 ''type'' [kgcType_MapUint]
        \<lparr>buf = [0x02, 0x01, 0x00], pos = 0, Endian = decode_LittleEndian, children = []\<rparr> =
      Inr (2, \<lparr>buf = [0x01, 0x00], pos = 1, Endian = decode_LittleEndian,
               children = [(''type'', Scalar (any_uint64 2) (Some ''i64''))]\<rparr>)"
    by (simp add: FieldULEB128_def FieldUintFn_def bnd_def ULEB128_def kgcType_MapUint_def
        addField_def)
  have b: "FieldULEB128 ''type'' [kgcType_MapUint]
        \<lparr>buf = [0x07, 0x61, 0x62, 0x63], pos = 0, Endian = decode_LittleEndian, children = []\<rparr> =
      Inr (7, \<lparr>buf = [0x61, 0x62, 0x63], pos = 1, Endian = decode_LittleEndian,
               children = [(''type'', Scalar (any_uint64 7) (Some ''str''))]\<rparr>)"
    by (simp add: FieldULEB128_def FieldUintFn_def bnd_def ULEB128_def kgcType_MapUint_def
        addField_def)
  have c: "(5::uint64) \<le> 7" by (simp add: word_le_def)
  show ?thesis
    using LuaJITDecodeKGC_payload [OF a] LuaJITDecodeKGC_payload [OF b] c
    by simp
qed

text \<open>
  Where the sum and the OR differ: tag 2 with \<open>lo = 2^32\<close> (bytes \<open>80 80 80 80 10\<close>)
  and \<open>hi = 1\<close> is decoded as \<open>2^32 + 2^32 = 0x200000000\<close>, while \<open>hi << 32 | lo\<close>
  is \<open>0x100000000\<close>.
\<close>

theorem LuaJITDecodeKGC_or_counterexample:
  "LuaJITDecodeKGC
     \<lparr>buf = [0x02, 0x80, 0x80, 0x80, 0x80, 0x10, 0x01], pos = 0, Endian = decode_LittleEndian,
      children = []\<rparr> =
     Inr ((), \<lparr>buf = [], pos = 7, Endian = decode_LittleEndian,
               children = [(''type'', Scalar (any_uint64 2) (Some ''i64'')),
                           (''i64'', Scalar (any_int64 0x200000000) None)]\<rparr>) \<and>
   uleb128 [0x80, 0x80, 0x80, 0x80, 0x10, 0x01] 0 0 = Some (0x100000000, [0x01]) \<and>
   uleb128 [0x01] 0 0 = Some (1, []) \<and>
   sint (push_bit 32 1 OR 0x100000000 :: uint64) = 0x100000000"
  by (simp add: LuaJITDecodeKGC_def FieldULEB128_def FieldUintFn_def bnd_def ret_def ULEB128_def
      kgcType_MapUint_def addField_def FieldAnyFn_def small_tags)

subsection \<open>The dump loop\<close>

lemma PeekBytes_1:
  "PeekBytes (Suc 0) d = (case buf d of [] \<Rightarrow> Inl OutOfInput | b # bs \<Rightarrow> Inr ([b], d))"
  by (cases "buf d") (simp_all add: PeekBytes_def)

lemma proto_loop_unfold:
  "proto_loop opcodes di d =
     (case buf d of
        [] \<Rightarrow> Inl OutOfInput
      | b # bs \<Rightarrow>
          if b = 0 then Inr ((), d)
          else (case FieldStruct ''proto'' (LuaJITDecodeProto opcodes di) d of
                  Inl e \<Rightarrow> Inl e
                | Inr (u, d') \<Rightarrow> proto_loop opcodes di d'))"
  by (subst proto_loop.simps) (simp add: PeekBytes_1 split: list.splits)

lemma proto_loop_result:
  "proto_loop opcodes di d = Inr (u, d') \<Longrightarrow>
   advances d d' \<and> (\<exists>rest. buf d' = 0 # rest)"
proof (induction opcodes di d rule: proto_loop.induct)
  case (1 opcodes di d)
  show ?case
  proof (cases "buf d")
    case Nil
    with "1.prems" show ?thesis by (subst (asm) proto_loop_unfold) simp
  next
    case (Cons b bs)
    show ?thesis
    proof (cases "b = 0")
      case True
      with Cons "1.prems" show ?thesis by (subst (asm) proto_loop_unfold) auto
    next
      case False
      with Cons "1.prems" obtain u1 d1 where
        s: "FieldStruct ''proto'' (LuaJITDecodeProto opcodes di) d = Inr (u1, d1)" and
        r: "proto_loop opcodes di d1 = Inr (u, d')"
        by (subst (asm) proto_loop_unfold) (auto split: sum.splits)
      have p: "PeekBytes 1 d = Inr ([b], d)" using Cons by (simp add: PeekBytes_def)
      have "advances d1 d' \<and> (\<exists>rest. buf d' = 0 # rest)"
        using "1.IH"[OF p refl _ s refl r] False by simp
      moreover have "advances d d1"
        using keepsD[OF keeps_FieldStruct[OF keeps_LuaJITDecodeProto] s] .
      ultimately show ?thesis by (blast intro: advances_trans)
    qed
  qed
qed


lemma FieldStruct_Inr:
  "FieldStruct name fn d = Inr (x, d') \<Longrightarrow>
   \<exists>d1. fn (d\<lparr>children := []\<rparr>) = Inr (x, d1) \<and>
        d' = d1\<lparr>children := children d @ [(name, Struct (children d1))]\<rparr>"
  by (auto simp: FieldStruct_def split: sum.splits)

lemma FieldArray_Inr:
  "FieldArray name fn d = Inr (x, d') \<Longrightarrow>
   \<exists>d1. fn (d\<lparr>children := []\<rparr>) = Inr (x, d1) \<and>
        d' = d1\<lparr>children := children d @ [(name, Array (children d1))]\<rparr>"
  by (auto simp: FieldArray_def split: sum.splits)

lemma advancesD:
  "advances d d' \<Longrightarrow> \<exists>n. n \<le> length (buf d) \<and> buf d' = drop n (buf d) \<and> pos d' = pos d + n"
  by (auto simp: advances_def)

lemma LuaJITDecode_success:
  assumes "LuaJITDecode opcodes d = Inr (u, d')"
  shows "\<exists>hdr protos n.
           children d' = children d @
             [(''header'', Struct hdr), (''proto'', Array protos),
              (''end'', Scalar (any_uint64 0) None)] \<and>
           n < length (buf d) \<and> buf d ! n = 0 \<and>
           buf d' = drop (Suc n) (buf d) \<and> pos d' = pos d + Suc n"
proof -
  let ?di0 = "\<lparr>Strip = False, BigEndian = False\<rparr>"
  from assms obtain di d1 where
    h: "FieldStruct ''header'' (LuaJITDecodeHeader ?di0) d = Inr (di, d1)" and
    r: "bnd (FieldArray ''proto'' (proto_loop opcodes di)) (\<lambda>_.
          bnd (FieldU8 ''end'' []) (\<lambda>_. ret ()))
          (d1\<lparr>Endian := if BigEndian di then decode_BigEndian else decode_LittleEndian\<rparr>) =
        Inr (u, d')"
    by (auto simp: LuaJITDecode_def bnd_def split: sum.splits)
  let ?d1 = "d1\<lparr>Endian := if BigEndian di then decode_BigEndian else decode_LittleEndian\<rparr>"
  from FieldStruct_Inr[OF h] obtain dh where
    dh: "LuaJITDecodeHeader ?di0 (d\<lparr>children := []\<rparr>) = Inr (di, dh)" and
    d1: "d1 = dh\<lparr>children := children d @ [(''header'', Struct (children dh))]\<rparr>"
    by blast
  from keepsD[OF keeps_LuaJITDecodeHeader dh] obtain n1 where
    n1: "n1 \<le> length (buf d)" "buf dh = drop n1 (buf d)" "pos dh = pos d + n1"
    by (auto dest!: advancesD)
  from r obtain x d2 where
    a: "FieldArray ''proto'' (proto_loop opcodes di) ?d1 = Inr (x, d2)" and
    e: "bnd (FieldU8 ''end'' []) (\<lambda>_. ret ()) d2 = Inr (u, d')"
    by (auto simp: bnd_def split: sum.splits)
  from FieldArray_Inr[OF a] obtain dl where
    dl: "proto_loop opcodes di (?d1\<lparr>children := []\<rparr>) = Inr (x, dl)" and
    d2: "d2 = dl\<lparr>children := children ?d1 @ [(''proto'', Array (children dl))]\<rparr>"
    by blast
  from proto_loop_result[OF dl] have adv: "advances (?d1\<lparr>children := []\<rparr>) dl"
    and ex: "\<exists>rest. buf dl = 0 # rest"
    by simp_all
  from ex obtain rest where z: "buf dl = 0 # rest" ..
  from advancesD[OF adv] obtain n2 where
    "n2 \<le> length (buf (?d1\<lparr>children := []\<rparr>))"
    "buf dl = drop n2 (buf (?d1\<lparr>children := []\<rparr>))"
    "pos dl = pos (?d1\<lparr>children := []\<rparr>) + n2"
    by blast
  then have n2: "n2 \<le> length (buf dh)" "buf dl = drop n2 (buf dh)" "pos dl = pos dh + n2"
    using d1 by simp_all
  have b2: "buf d2 = 0 # rest" using d2 z by simp
  from e have d': "d' = addField ''end'' (Scalar (any_uint64 0) None)
      (d2\<lparr>buf := rest, pos := pos d2 + 1\<rparr>)"
    by (simp add: bnd_def ret_def FieldU8_Cons[OF b2])
  have dr: "drop (n1 + n2) (buf d) = 0 # rest"
    using n1 n2 z by (simp add: add.commute)
  then have lt: "n1 + n2 < length (buf d)"
    by (metis drop_eq_Nil list.distinct(1) not_le)
  from dr lt have nth: "buf d ! (n1 + n2) = 0"
    by (metis Cons_nth_drop_Suc list.inject)
  from dr have rest: "rest = drop (Suc (n1 + n2)) (buf d)"
    by (metis drop_Suc list.sel(3) tl_drop)
  have "children d' = children d @
      [(''header'', Struct (children dh)), (''proto'', Array (children dl)),
       (''end'', Scalar (any_uint64 0) None)]"
    using d' d2 d1 by (simp add: addField_def)
  moreover have "buf d' = drop (Suc (n1 + n2)) (buf d)" using d' rest by (simp add: addField_def)
  moreover have "pos d' = pos d + Suc (n1 + n2)"
    using d' d2 n2(3) n1(3) by (simp add: addField_def)
  ultimately show ?thesis using lt nth by blast
qed


lemma proto_loop_stop: "buf d = 0 # bs \<Longrightarrow> proto_loop opcodes di d = Inr ((), d)"
  by (subst proto_loop_unfold) simp

lemma proto_loop_step:
  "buf d = b # bs \<Longrightarrow> b \<noteq> 0 \<Longrightarrow>
   proto_loop opcodes di d =
     (case FieldStruct ''proto'' (LuaJITDecodeProto opcodes di) d of
        Inl e \<Rightarrow> Inl e
      | Inr (u, d') \<Rightarrow> proto_loop opcodes di d')"
  by (subst proto_loop_unfold) simp

lemma minimal_dump:
  assumes "buf d = [0x1b, 0x4c, 0x4a, ver, 0x00, 0x01, 0x74, 0x00] @ rest"
  shows "LuaJITDecode opcodes d =
     Inr ((), d\<lparr>buf := rest, pos := pos d + 8, Endian := decode_LittleEndian,
                children := children d @
                  [(''header'', Struct
                      [(''magic'', Scalar (any_raw [0x1b, 0x4c, 0x4a]) None),
                       (''version'', Scalar (any_uint64 (ucast ver)) None),
                       (''flags'', Struct
                          [(''raw'', Scalar (any_uint64 0) None),
                           (''be'', Scalar (any_bool False) None),
                           (''strip'', Scalar (any_bool False) None),
                           (''ffi'', Scalar (any_bool False) None),
                           (''fr2'', Scalar (any_bool False) None)]),
                       (''namelen'', Scalar (any_uint64 1) None),
                       (''name'', Scalar (any_string [0x74]) None)]),
                   (''proto'', Array []),
                   (''end'', Scalar (any_uint64 0) None)]\<rparr>)"
  using assms
  by (simp add: LuaJITDecode_def LuaJITDecodeHeader_def bnd_def ret_def FieldRawLen_magic
      FieldU8_Cons FieldStruct_def FieldArray_def FieldULEB128_single FieldValueBool_def
      FieldStr_def addField_def Let_def proto_loop_stop)



subsection \<open>The read boundary of a prototype\<close>

lemma limit_le:
  fixes len :: uint64
  assumes "0 \<le> sint (8 * len)"
  shows "nat (sint (8 * len)) div 8 \<le> unat len"
proof -
  have "nat (sint (8 * len)) = unat (8 * len)" using assms by (rule nat_sint_nonneg)
  also have "\<dots> = (8 * unat len) mod 2 ^ 64" by (simp add: unat_word_ariths)
  also have "\<dots> \<le> 8 * unat len" by (rule mod_less_eq_dividend)
  finally show ?thesis by simp
qed

lemma limit_exact:
  fixes len :: uint64
  assumes "unat len < 2 ^ 60"
  shows "sint (8 * len) = 8 * int (unat len)"
proof -
  have u: "unat (8 * len) = 8 * unat len"
    using assms by (simp add: unat_word_ariths)
  from assms have "int (unat len) < int (2 ^ 60)" by (simp only: of_nat_less_iff)
  then have b: "uint len < 2 ^ 60" by simp
  have e: "uint (8 * len) = 8 * uint len"
    using u by (metis of_nat_mult of_nat_numeral uint_nat)
  have "- (2 ^ 63) \<le> (0::int)" by simp
  then have "- (2 ^ 63) \<le> uint (8 * len)"
    by (rule order_trans) simp
  moreover have "uint (8 * len) < 2 ^ 63" using b e by simp
  ultimately have "signed_take_bit 63 (uint (8 * len)) = uint (8 * len)"
    by (rule signed_take_bit_int_eq_self)
  then show ?thesis using e by (simp add: sint_uint)
qed

lemma uleb128_append:
  "uleb128 xs s r = Some (v, ys) \<Longrightarrow>
   \<exists>l. xs = l @ ys \<and> (\<forall>zs. uleb128 (l @ zs) s r = Some (v, zs))"
proof (induction xs arbitrary: s r)
  case Nil
  then show ?case by simp
next
  case (Cons b bs)
  show ?case
  proof (cases "b AND 0x80 = 0")
    case True
    with Cons.prems have "ys = bs" "v = r OR push_bit s (ucast (b AND 0x7f))"
      by (simp_all add: Let_def)
    with True show ?thesis by (intro exI[of _ "[b]"]) (simp add: Let_def)
  next
    case False
    with Cons.prems have "uleb128 bs (s + 7) (r OR push_bit s (ucast (b AND 0x7f))) = Some (v, ys)"
      by (simp add: Let_def)
    from Cons.IH[OF this] obtain l where
      "bs = l @ ys" "\<forall>zs. uleb128 (l @ zs) (s + 7) (r OR push_bit s (ucast (b AND 0x7f))) = Some (v, zs)"
      by blast
    with False show ?thesis by (intro exI[of _ "b # l"]) (simp add: Let_def)
  qed
qed

lemma FieldULEB128_append:
  assumes "FieldULEB128 name [] d = Inr (v, d1)"
  shows "\<exists>l. buf d = l @ buf d1 \<and> pos d1 = pos d + length l \<and>
           (\<forall>zs. FieldULEB128 name [] (d\<lparr>buf := l @ zs\<rparr>) = Inr (v, d1\<lparr>buf := zs\<rparr>))"
proof -
  from assms obtain bs where u: "uleb128 (buf d) 0 0 = Some (v, bs)"
    and d1: "d1 = addField name (Scalar (any_uint64 v) None)
        (d\<lparr>buf := bs, pos := pos d + (length (buf d) - length bs)\<rparr>)"
    by (auto simp: FieldULEB128_def FieldUintFn_def bnd_def ULEB128_def
        split: option.splits sum.splits)
  from uleb128_append[OF u] obtain l where
    l: "buf d = l @ bs" "\<forall>zs. uleb128 (l @ zs) 0 0 = Some (v, zs)" by blast
  have "buf d = l @ buf d1" using l d1 by (simp add: addField_def)
  moreover have "pos d1 = pos d + length l" using l d1 by (simp add: addField_def)
  moreover have "\<forall>zs. FieldULEB128 name [] (d\<lparr>buf := l @ zs\<rparr>) = Inr (v, d1\<lparr>buf := zs\<rparr>)"
    using l d1
    by (simp add: FieldULEB128_def FieldUintFn_def bnd_def ULEB128_def addField_def)
  ultimately show ?thesis by blast
qed

lemma LimitedFn_tail:
  assumes "nat nBits div 8 \<le> length w"
  shows "outcome (LimitedFn nBits fn (d\<lparr>buf := w @ t\<rparr>)) =
         outcome (LimitedFn nBits fn (d\<lparr>buf := w @ t'\<rparr>))"
  using assms by (simp add: LimitedFn_def outcome_def split: sum.splits)


lemma limit_exact_nat:
  fixes len :: uint64
  assumes "unat len < 2 ^ 60"
  shows "nat (sint (8 * len)) div 8 = unat len"
proof -
  from limit_exact[OF assms] have "sint (8 * len) = int (8 * unat len)" by simp
  then have "nat (sint (8 * len)) = 8 * unat len" by (simp only: nat_int)
  then show ?thesis by simp
qed

lemma limit_le':
  fixes len :: uint64
  shows "nat (sint (8 * len)) div 8 \<le> unat len"
proof (cases "0 \<le> sint (8 * len)")
  case True
  then show ?thesis by (rule limit_le)
next
  case False
  then show ?thesis by simp
qed

lemma LuaJITDecodeProto_after_length:
  "FieldULEB128 ''length'' [] d = Inr (len, d1) \<Longrightarrow>
   LuaJITDecodeProto opcodes di d =
     LimitedFn (sint (8 * len)) (LuaJITDecodeProto_pdata opcodes di) d1"
  by (simp add: LuaJITDecodeProto_def bnd_Inr)

lemma proto_cursor:
  assumes "FieldULEB128 ''length'' [] d = Inr (len, d1)"
    and "LuaJITDecodeProto opcodes di d = Inr (u, d')"
  shows "\<exists>n. n \<le> unat len \<and> n \<le> length (buf d1) \<and> buf d' = drop n (buf d1) \<and>
             pos d' = pos d1 + n"
proof -
  from assms have r: "LimitedFn (sint (8 * len)) (LuaJITDecodeProto_pdata opcodes di) d1 = Inr (u, d')"
    by (simp add: LuaJITDecodeProto_after_length)
  from LimitedFn_window[OF keeps_LuaJITDecodeProto_pdata r]
  have a: "advances d1 d'" and b: "length (buf d1) - length (buf d') \<le> nat (sint (8 * len)) div 8"
    by simp_all
  from advancesD[OF a] obtain n where
    n: "n \<le> length (buf d1)" "buf d' = drop n (buf d1)" "pos d' = pos d1 + n" by blast
  then have "length (buf d1) - length (buf d') = n" by simp
  with b limit_le'[of len] have "n \<le> unat len" by simp
  with n show ?thesis by blast
qed

lemma proto_confined:
  assumes "FieldULEB128 ''length'' [] d = Inr (len, d1)"
    and "unat len \<le> length (buf d1)"
  shows "outcome (LuaJITDecodeProto opcodes di
            (d\<lparr>buf := take (pos d1 - pos d + unat len) (buf d) @ t\<rparr>)) =
         outcome (LuaJITDecodeProto opcodes di d)"
proof -
  from FieldULEB128_append[OF assms(1)] obtain l where
    l: "buf d = l @ buf d1" "pos d1 = pos d + length l"
    "\<forall>zs. FieldULEB128 ''length'' [] (d\<lparr>buf := l @ zs\<rparr>) = Inr (len, d1\<lparr>buf := zs\<rparr>)"
    by blast
  let ?w = "take (unat len) (buf d1)"
  have k: "nat (sint (8 * len)) div 8 \<le> length ?w"
    using limit_le'[of len] assms(2) by simp
  have "take (pos d1 - pos d + unat len) (buf d) = l @ ?w"
    using l(1,2) by simp
  then have "LuaJITDecodeProto opcodes di (d\<lparr>buf := take (pos d1 - pos d + unat len) (buf d) @ t\<rparr>) =
      LimitedFn (sint (8 * len)) (LuaJITDecodeProto_pdata opcodes di) (d1\<lparr>buf := ?w @ t\<rparr>)"
    using l(3) by (simp add: LuaJITDecodeProto_after_length)
  moreover have "LuaJITDecodeProto opcodes di d =
      LimitedFn (sint (8 * len)) (LuaJITDecodeProto_pdata opcodes di)
        (d1\<lparr>buf := ?w @ drop (unat len) (buf d1)\<rparr>)"
    using assms(1) by (simp add: LuaJITDecodeProto_after_length)
  ultimately show ?thesis
    using LimitedFn_tail[OF k, where fn = "LuaJITDecodeProto_pdata opcodes di" and d = d1
        and t = t and t' = "drop (unat len) (buf d1)"]
    by simp
qed

text \<open>
  Claim C4, as the code has it. Let the length field of a prototype decode to \<open>len\<close>,
  leaving the state \<open>d1\<close>. The bounded scope then holds
  \<open>(8 * len mod 2^64) / 8\<close> bytes, which is never more than \<open>len\<close> and exactly \<open>len\<close>
  when \<open>len < 2^60\<close>; a product that is negative as an \<open>int64\<close> is an error.
  \<^item> On successful return the cursor sits at or before the boundary: it has moved over
    some \<open>n \<le> len\<close> of the bytes behind the length field, to where the last field ended.
  \<^item> Nothing past the boundary is read: when the input holds all \<open>len\<close> bytes, the
    outcome (error, or fields and cursor) is the same whatever bytes follow them.
  \<^item> When the fields cannot be decoded from the bytes inside the boundary alone, the
    prototype fails with that error, and an error carries no partial result.
\<close>

theorem proto_boundary:
  assumes "FieldULEB128 ''length'' [] d = Inr (len, d1)"
  shows
   "(\<forall>u d'. LuaJITDecodeProto opcodes di d = Inr (u, d') \<longrightarrow>
       (\<exists>n. n \<le> unat len \<and> n \<le> length (buf d1) \<and> buf d' = drop n (buf d1) \<and>
            pos d' = pos d1 + n)) \<and>
    (unat len \<le> length (buf d1) \<longrightarrow>
       (\<forall>t. outcome (LuaJITDecodeProto opcodes di
                 (d\<lparr>buf := take (pos d1 - pos d + unat len) (buf d) @ t\<rparr>)) =
            outcome (LuaJITDecodeProto opcodes di d))) \<and>
    (\<forall>e. 0 \<le> sint (8 * len) \<and>
         LuaJITDecodeProto_pdata opcodes di
           (d1\<lparr>buf := take (nat (sint (8 * len)) div 8) (buf d1)\<rparr>) = Inl e \<longrightarrow>
         LuaJITDecodeProto opcodes di d = Inl e) \<and>
    (sint (8 * len) < 0 \<longrightarrow> LuaJITDecodeProto opcodes di d = Inl NegativeLength) \<and>
    nat (sint (8 * len)) div 8 \<le> unat len \<and>
    (unat len < 2 ^ 60 \<longrightarrow> 0 \<le> sint (8 * len) \<and> nat (sint (8 * len)) div 8 = unat len)"
proof (intro conjI allI impI)
  fix u d' assume "LuaJITDecodeProto opcodes di d = Inr (u, d')"
  with assms show "\<exists>n. n \<le> unat len \<and> n \<le> length (buf d1) \<and> buf d' = drop n (buf d1) \<and>
            pos d' = pos d1 + n"
    by (rule proto_cursor)
next
  fix t assume "unat len \<le> length (buf d1)"
  with assms show "outcome (LuaJITDecodeProto opcodes di
                 (d\<lparr>buf := take (pos d1 - pos d + unat len) (buf d) @ t\<rparr>)) =
            outcome (LuaJITDecodeProto opcodes di d)"
    by (rule proto_confined)
next
  fix e assume "0 \<le> sint (8 * len) \<and>
         LuaJITDecodeProto_pdata opcodes di
           (d1\<lparr>buf := take (nat (sint (8 * len)) div 8) (buf d1)\<rparr>) = Inl e"
  then show "LuaJITDecodeProto opcodes di d = Inl e"
    using assms by (simp add: LuaJITDecodeProto_after_length LimitedFn_def)
next
  assume "sint (8 * len) < 0"
  then show "LuaJITDecodeProto opcodes di d = Inl NegativeLength"
    using assms by (simp add: LuaJITDecodeProto_after_length LimitedFn_def)
next
  show "nat (sint (8 * len)) div 8 \<le> unat len" by (rule limit_le')
next
  assume "unat len < 2 ^ 60"
  then show "0 \<le> sint (8 * len)" by (simp add: limit_exact)
next
  assume "unat len < 2 ^ 60"
  then show "nat (sint (8 * len)) div 8 = unat len" by (rule limit_exact_nat)
qed

text \<open>
  A prototype of declared length 7 whose header announces one instruction: the header
  fills the 7 bytes, the instruction would lie past the boundary, and the decode fails as
  out of input although five more bytes follow. And a prototype of length 7 decodes alike
  whether \<open>00\<close> or \<open>55 66\<close> follows its 7 bytes.
\<close>

theorem proto_boundary_witness:
  "LuaJITDecodeProto [\<lparr>Name = ''ISLT'', HasD = True, IsJump = False\<rparr>]
     \<lparr>Strip = True, BigEndian = False\<rparr>
     \<lparr>buf = [0x07, 0x00, 0x00, 0x00, 0x00, 0x00, 0x00, 0x01, 0x00, 0x00, 0x00, 0x00, 0x00],
      pos = 0, Endian = decode_LittleEndian, children = []\<rparr> = Inl OutOfInput \<and>
   outcome (LuaJITDecodeProto [] \<lparr>Strip = True, BigEndian = False\<rparr>
     \<lparr>buf = [0x07, 0x00, 0x00, 0x00, 0x00, 0x00, 0x00, 0x00, 0x55, 0x66],
      pos = 0, Endian = decode_LittleEndian, children = []\<rparr>) =
   outcome (LuaJITDecodeProto [] \<lparr>Strip = True, BigEndian = False\<rparr>
     \<lparr>buf = [0x07, 0x00, 0x00, 0x00, 0x00, 0x00, 0x00, 0x00, 0x00],
      pos = 0, Endian = decode_LittleEndian, children = []\<rparr>)"
proof -
  have a: "FieldULEB128 ''length'' []
      \<lparr>buf = [0x07, 0x00, 0x00, 0x00, 0x00, 0x00, 0x00, 0x01, 0x00, 0x00, 0x00, 0x00, 0x00],
       pos = 0, Endian = decode_LittleEndian, children = []\<rparr> =
     Inr (7, \<lparr>buf = [0x00, 0x00, 0x00, 0x00, 0x00, 0x00, 0x01, 0x00, 0x00, 0x00, 0x00, 0x00],
              pos = 1, Endian = decode_LittleEndian,
              children = [(''length'', Scalar (any_uint64 7) None)]\<rparr>)"
    by (simp add: FieldULEB128_single addField_def)
  have b: "FieldULEB128 ''length'' []
      \<lparr>buf = [0x07, 0x00, 0x00, 0x00, 0x00, 0x00, 0x00, 0x00, 0x00],
       pos = 0, Endian = decode_LittleEndian, children = []\<rparr> =
     Inr (7, \<lparr>buf = [0x00, 0x00, 0x00, 0x00, 0x00, 0x00, 0x00, 0x00],
              pos = 1, Endian = decode_LittleEndian,
              children = [(''length'', Scalar (any_uint64 7) None)]\<rparr>)"
    by (simp add: FieldULEB128_single addField_def)
  have c: "LuaJITDecodeProto_pdata [\<lparr>Name = ''ISLT'', HasD = True, IsJump = False\<rparr>]
      \<lparr>Strip = True, BigEndian = False\<rparr>
      \<lparr>buf = [0x00, 0x00, 0x00, 0x00, 0x00, 0x00, 0x01],
       pos = 1, Endian = decode_LittleEndian,
       children = [(''length'', Scalar (any_uint64 7) None)]\<rparr> = Inl OutOfInput"
    by (simp add: LuaJITDecodeProto_pdata_def bnd_def ret_def FieldU8_Cons FieldStruct_def
        FieldArray_def FieldULEB128_single addField_def LuaJITDecodeBCIns_def FieldU8_def
        FieldUintFn_def U8_def)
  show ?thesis
    using proto_boundary [OF a, of "[\<lparr>Name = ''ISLT'', HasD = True, IsJump = False\<rparr>]"
        "\<lparr>Strip = True, BigEndian = False\<rparr>"]
      proto_boundary [OF b, of "[]" "\<lparr>Strip = True, BigEndian = False\<rparr>",
        THEN conjunct2, THEN conjunct1, rule_format, of "[0x55, 0x66]"]
      c
    by simp
qed

text \<open>
  The cursor need not end at the boundary. With declared length 8 and fields that fill
  only 7 bytes the decode succeeds with the cursor at offset 8, one byte before the
  boundary at offset \<open>1 + 8\<close>; the byte \<open>AA\<close> inside the boundary is left unread.
\<close>

theorem LuaJITDecodeProto_cursor_counterexample:
  "FieldULEB128 ''length'' []
     \<lparr>buf = [0x08, 0x00, 0x00, 0x00, 0x00, 0x00, 0x00, 0x00, 0xAA, 0x00], pos = 0,
      Endian = decode_LittleEndian, children = []\<rparr> =
   Inr (8, \<lparr>buf = [0x00, 0x00, 0x00, 0x00, 0x00, 0x00, 0x00, 0xAA, 0x00], pos = 1,
            Endian = decode_LittleEndian,
            children = [(''length'', Scalar (any_uint64 8) None)]\<rparr>) \<and>
   LuaJITDecodeProto [] \<lparr>Strip = True, BigEndian = False\<rparr>
     \<lparr>buf = [0x08, 0x00, 0x00, 0x00, 0x00, 0x00, 0x00, 0x00, 0xAA, 0x00], pos = 0,
      Endian = decode_LittleEndian, children = []\<rparr> =
   Inr ((), \<lparr>buf = [0xAA, 0x00], pos = 8, Endian = decode_LittleEndian,
             children =
               [(''length'', Scalar (any_uint64 8) None),
                (''pdata'', Struct
                   [(''phead'', Struct
                       [(''flags'', Scalar (any_uint64 0) None),
                        (''numparams'', Scalar (any_uint64 0) None),
                        (''framesize'', Scalar (any_uint64 0) None),
                        (''numuv'', Scalar (any_uint64 0) None),
                        (''numkgc'', Scalar (any_uint64 0) None),
                        (''numkn'', Scalar (any_uint64 0) None),
                        (''numbc'', Scalar (any_uint64 0) None)]),
                    (''bcins'', Array []), (''uvdata'', Array []),
                    (''kgc'', Array []), (''knum'', Array [])])]\<rparr>) \<and>
   (8::nat) \<noteq> 1 + 8"
  by (simp add: LuaJITDecodeProto_def LuaJITDecodeProto_pdata_def LimitedFn_def bnd_def ret_def
      FieldU8_Cons FieldStruct_def FieldArray_def FieldULEB128_single addField_def)

subsection \<open>Byte order\<close>

lemma FieldUintFn_nomap_Inr:
  "FieldUintFn name rd [] d = Inr (v, d') \<Longrightarrow>
   \<exists>d1. rd d = Inr (v, d1) \<and> d' = addField name (Scalar (any_uint64 v) None) d1"
  by (auto simp: FieldUintFn_def bnd_def split: sum.splits)

lemma bnd_Inr_iff:
  "bnd m k d = Inr r \<longleftrightarrow> (\<exists>x d1. m d = Inr (x, d1) \<and> k x d1 = Inr r)"
  by (auto simp: bnd_def split: sum.splits)

lemma keeps_children_prefix_U8:
  "U8 d = Inr (v, d') \<Longrightarrow> children d' = children d"
  by (auto simp: U8_def split: list.splits)

lemma FieldRawLen_children:
  "FieldRawLen name n a d = Inr (u, d') \<Longrightarrow> \<exists>f. children d' = children d @ [f]"
  by (auto simp: FieldRawLen_def addField_def split: if_splits option.splits)

lemma FieldU8_children:
  "FieldU8 name [] d = Inr (v, d') \<Longrightarrow> \<exists>f. children d' = children d @ [f]"
  by (auto simp: FieldU8_def addField_def dest!: FieldUintFn_nomap_Inr keeps_children_prefix_U8)

lemma flags_struct:
  assumes "FieldStruct ''flags''
            (bnd (FieldULEB128 ''raw'' []) (\<lambda>flags.
             bnd (FieldValueBool ''be'' (flags AND 0x01 > 0)) (\<lambda>_.
             bnd (FieldValueBool ''strip'' (flags AND 0x02 > 0)) (\<lambda>_.
             bnd (FieldValueBool ''ffi'' (flags AND 0x04 > 0)) (\<lambda>_.
             bnd (FieldValueBool ''fr2'' (flags AND 0x08 > 0)) (\<lambda>_.
             ret flags)))))) d = Inr (flags, d')"
  shows "children d' = children d @
           [(''flags'', Struct
               [(''raw'', Scalar (any_uint64 flags) None),
                (''be'', Scalar (any_bool (flags AND 0x01 > 0)) None),
                (''strip'', Scalar (any_bool (flags AND 0x02 > 0)) None),
                (''ffi'', Scalar (any_bool (flags AND 0x04 > 0)) None),
                (''fr2'', Scalar (any_bool (flags AND 0x08 > 0)) None)])]"
proof -
  from FieldStruct_Inr[OF assms] obtain d1 where
    r: "bnd (FieldULEB128 ''raw'' []) (\<lambda>flags.
             bnd (FieldValueBool ''be'' (flags AND 0x01 > 0)) (\<lambda>_.
             bnd (FieldValueBool ''strip'' (flags AND 0x02 > 0)) (\<lambda>_.
             bnd (FieldValueBool ''ffi'' (flags AND 0x04 > 0)) (\<lambda>_.
             bnd (FieldValueBool ''fr2'' (flags AND 0x08 > 0)) (\<lambda>_.
             ret flags))))) (d\<lparr>children := []\<rparr>) = Inr (flags, d1)"
    and d': "d' = d1\<lparr>children := children d @ [(''flags'', Struct (children d1))]\<rparr>"
    by blast
  from r obtain f d2 where
    u: "FieldULEB128 ''raw'' [] (d\<lparr>children := []\<rparr>) = Inr (f, d2)" and
    k: "bnd (FieldValueBool ''be'' (f AND 0x01 > 0)) (\<lambda>_.
             bnd (FieldValueBool ''strip'' (f AND 0x02 > 0)) (\<lambda>_.
             bnd (FieldValueBool ''ffi'' (f AND 0x04 > 0)) (\<lambda>_.
             bnd (FieldValueBool ''fr2'' (f AND 0x08 > 0)) (\<lambda>_.
             ret f)))) d2 = Inr (flags, d1)"
    unfolding bnd_Inr_iff[of "FieldULEB128 ''raw'' []"] by blast
  from u have c2: "children d2 = [(''raw'', Scalar (any_uint64 f) None)]"
    by (auto simp: FieldULEB128_def addField_def dest!: FieldUintFn_nomap_Inr ULEB128_strict)
  from k have "flags = f" and "children d1 = children d2 @
      [(''be'', Scalar (any_bool (f AND 0x01 > 0)) None),
       (''strip'', Scalar (any_bool (f AND 0x02 > 0)) None),
       (''ffi'', Scalar (any_bool (f AND 0x04 > 0)) None),
       (''fr2'', Scalar (any_bool (f AND 0x08 > 0)) None)]"
    by (auto simp: bnd_def ret_def FieldValueBool_def addField_def)
  with c2 d' show ?thesis by simp
qed

lemma header_flags:
  assumes "LuaJITDecodeHeader di0 d = Inr (di, d1)"
  shows "\<exists>magic version flags rest.
           children d1 = children d @
             magic # version #
             (''flags'', Struct
               [(''raw'', Scalar (any_uint64 flags) None),
                (''be'', Scalar (any_bool (flags AND 0x01 > 0)) None),
                (''strip'', Scalar (any_bool (flags AND 0x02 > 0)) None),
                (''ffi'', Scalar (any_bool (flags AND 0x04 > 0)) None),
                (''fr2'', Scalar (any_bool (flags AND 0x08 > 0)) None)]) # rest \<and>
           BigEndian di = (flags AND 0x01 > 0) \<and> Endian d1 = Endian d"
proof -
  from assms obtain u0 da where
    m: "FieldRawLen ''magic'' (3 * 8) (AssertBitBuf [0x1b, 0x4c, 0x4a]) d = Inr (u0, da)" and
    r1: "bnd (FieldU8 ''version'' []) (\<lambda>_.
     bnd (FieldStruct ''flags''
            (bnd (FieldULEB128 ''raw'' []) (\<lambda>flags.
             bnd (FieldValueBool ''be'' (flags AND 0x01 > 0)) (\<lambda>_.
             bnd (FieldValueBool ''strip'' (flags AND 0x02 > 0)) (\<lambda>_.
             bnd (FieldValueBool ''ffi'' (flags AND 0x04 > 0)) (\<lambda>_.
             bnd (FieldValueBool ''fr2'' (flags AND 0x08 > 0)) (\<lambda>_.
             ret flags))))))) (\<lambda>flags.
     let di' = di0\<lparr>Strip := flags AND 0x2 > 0, BigEndian := flags AND 0x1 > 0\<rparr> in
     if \<not> Strip di' then
       bnd (FieldU8 ''namelen'' []) (\<lambda>namelen.
       bnd (FieldStr ''name'' (sint namelen)) (\<lambda>_.
       ret di'))
     else ret di')) da = Inr (di, d1)"
    unfolding LuaJITDecodeHeader_def bnd_Inr_iff[of "FieldRawLen ''magic'' (3 * 8) (AssertBitBuf [0x1b, 0x4c, 0x4a])"]
    by blast
  from r1 obtain v db where
    v: "FieldU8 ''version'' [] da = Inr (v, db)" and
    r2: "bnd (FieldStruct ''flags''
            (bnd (FieldULEB128 ''raw'' []) (\<lambda>flags.
             bnd (FieldValueBool ''be'' (flags AND 0x01 > 0)) (\<lambda>_.
             bnd (FieldValueBool ''strip'' (flags AND 0x02 > 0)) (\<lambda>_.
             bnd (FieldValueBool ''ffi'' (flags AND 0x04 > 0)) (\<lambda>_.
             bnd (FieldValueBool ''fr2'' (flags AND 0x08 > 0)) (\<lambda>_.
             ret flags))))))) (\<lambda>flags.
     let di' = di0\<lparr>Strip := flags AND 0x2 > 0, BigEndian := flags AND 0x1 > 0\<rparr> in
     if \<not> Strip di' then
       bnd (FieldU8 ''namelen'' []) (\<lambda>namelen.
       bnd (FieldStr ''name'' (sint namelen)) (\<lambda>_.
       ret di'))
     else ret di') db = Inr (di, d1)"
    unfolding bnd_Inr_iff[of "FieldU8 ''version'' []"] by blast
  from r2 obtain flags dc where
    f: "FieldStruct ''flags''
            (bnd (FieldULEB128 ''raw'' []) (\<lambda>flags.
             bnd (FieldValueBool ''be'' (flags AND 0x01 > 0)) (\<lambda>_.
             bnd (FieldValueBool ''strip'' (flags AND 0x02 > 0)) (\<lambda>_.
             bnd (FieldValueBool ''ffi'' (flags AND 0x04 > 0)) (\<lambda>_.
             bnd (FieldValueBool ''fr2'' (flags AND 0x08 > 0)) (\<lambda>_.
             ret flags)))))) db = Inr (flags, dc)" and
    r3: "(let di' = di0\<lparr>Strip := flags AND 0x2 > 0, BigEndian := flags AND 0x1 > 0\<rparr> in
     if \<not> Strip di' then
       bnd (FieldU8 ''namelen'' []) (\<lambda>namelen.
       bnd (FieldStr ''name'' (sint namelen)) (\<lambda>_.
       ret di'))
     else ret di') dc = Inr (di, d1)"
    unfolding bnd_Inr_iff[of "FieldStruct ''flags'' _"] by blast
  from FieldRawLen_children[OF m] obtain fm where cm: "children da = children d @ [fm]" ..
  from FieldU8_children[OF v] obtain fv where cv: "children db = children da @ [fv]" ..
  note cf = flags_struct[OF f]
  from r3 have "BigEndian di = (flags AND 0x01 > 0)" and "\<exists>rest. children d1 = children dc @ rest"
    by (auto simp: Let_def bnd_def ret_def FieldStr_def addField_def
        split: if_splits sum.splits dest!: FieldU8_children)
  moreover have "Endian d1 = Endian d"
    using keepsD[OF keeps_LuaJITDecodeHeader assms] by (simp add: advances_def)
  ultimately show ?thesis using cm cv cf by auto
qed


lemma keeps_proto_loop: "keeps (proto_loop opcodes di)"
  by (rule keepsI) (simp add: proto_loop_result)

lemma keeps_Endian: "keeps f \<Longrightarrow> f d = Inr (x, d') \<Longrightarrow> Endian d' = Endian d"
  by (auto simp: advances_def dest!: keepsD)



end
